theory Spec2Isabelle
  imports Main "HOL-Library.AList" "HOL-Library.Char_ord" "HOL-Library.List_Lexorder"
    "HOL-Library.Multiset"
begin

section \<open>download\_articles.py: articles from Dokumentlager to DjVu files\<close>

text \<open>
  A shallow embedding of \<^verbatim>\<open>src/download_articles.py\<close>. Python strings are
  \<open>string\<close>; a \<open>char\<close> stands for one code point below 256. Every exception the
  program can meet is a value of \<open>py_error\<close>; a pure computation that may raise has
  type \<open>py_error + 'a\<close>, a computation with effects has type \<open>'a io\<close> and returns
  the world it leaves behind, also when it raises.
\<close>

subsection \<open>Exceptions\<close>

datatype py_error =
    IndexError
  | KeyError string
  | TypeError
  | ValueError
  | FileNotFoundError
  | FileExistsError
  | NotADirectoryError
  | IsADirectoryError
  | JSONDecodeError
  | RequestException
  | CalledProcessError
  | OSError
  | SystemExit
  | Exception string

definition bind_err :: "py_error + 'a \<Rightarrow> ('a \<Rightarrow> py_error + 'b) \<Rightarrow> py_error + 'b" where
  "bind_err m f = (case m of Inl e \<Rightarrow> Inl e | Inr x \<Rightarrow> f x)"

text \<open>A list comprehension \<^verbatim>\<open>[f(x) for x in xs]\<close> whose body may raise: the first
  raise, from left to right, ends it.\<close>

fun comprehension :: "('a \<Rightarrow> py_error + 'b) \<Rightarrow> 'a list \<Rightarrow> py_error + 'b list" where
  "comprehension f [] = Inr []"
| "comprehension f (x # xs) =
     bind_err (f x) (\<lambda>y. bind_err (comprehension f xs) (\<lambda>ys. Inr (y # ys)))"

text \<open>\<^verbatim>\<open>[x for x in xs if p(x)]\<close> with a condition that may raise.\<close>

fun comprehension_if :: "('a \<Rightarrow> py_error + bool) \<Rightarrow> 'a list \<Rightarrow> py_error + 'a list" where
  "comprehension_if p [] = Inr []"
| "comprehension_if p (x # xs) =
     bind_err (p x) (\<lambda>b. bind_err (comprehension_if p xs)
       (\<lambda>ys. Inr (if b then x # ys else ys)))"

text \<open>\<^verbatim>\<open>xs[0]\<close>: IndexError on the empty list.\<close>

definition first :: "'a list \<Rightarrow> py_error + 'a" where
  "first xs = (case xs of [] \<Rightarrow> Inl IndexError | x # _ \<Rightarrow> Inr x)"

subsection \<open>JSON values as \<^verbatim>\<open>json.loads\<close> returns them\<close>

text \<open>
  A number is carried by its literal text: the program never computes with one.
  A dict is an association list in insertion order; a key is looked up with
  \<open>map_of\<close>.
\<close>

datatype json =
    JNull
  | JBool bool
  | JNum string
  | JStr string
  | JArr "json list"
  | JObj "(string \<times> json) list"

text \<open>Iteration (\<^verbatim>\<open>for x in v\<close>): a list gives its elements, a dict its keys, a string
  its characters; anything else is not iterable.\<close>

definition py_iter :: "json \<Rightarrow> py_error + json list" where
  "py_iter v = (case v of
      JArr xs \<Rightarrow> Inr xs
    | JObj kvs \<Rightarrow> Inr (map (\<lambda>kv. JStr (fst kv)) kvs)
    | JStr s \<Rightarrow> Inr (map (\<lambda>c. JStr [c]) s)
    | _ \<Rightarrow> Inl TypeError)"

text \<open>Subscription with a string key (\<^verbatim>\<open>v["k"]\<close>): KeyError on a dict without the
  key, TypeError on every value that is not a dict.\<close>

definition getitem :: "json \<Rightarrow> string \<Rightarrow> py_error + json" where
  "getitem v k = (case v of
      JObj kvs \<Rightarrow> (case map_of kvs k of None \<Rightarrow> Inl (KeyError k) | Some x \<Rightarrow> Inr x)
    | _ \<Rightarrow> Inl TypeError)"

text \<open>\<^verbatim>\<open>"{}".format(v)\<close>: a string is inserted as it is; for any other value the
  text is what Python's \<open>str\<close> gives, taken as the parameter \<open>render\<close>.\<close>

definition format_field :: "(json \<Rightarrow> string) \<Rightarrow> json \<Rightarrow> string" where
  "format_field render v = (case v of JStr s \<Rightarrow> s | _ \<Rightarrow> render v)"

subsection \<open>\<^verbatim>\<open>generate_url\<close> and \<^verbatim>\<open>get_image_paths\<close>\<close>

definition generate_url :: "string \<Rightarrow> string" where
  "generate_url internal_id =
     ''https://dokumentlager.nordiskamuseet.se/api/list/'' @ internal_id @ ''/0/500''"

text \<open>A page reference: the dict \<^verbatim>\<open>{"filename": filename, "url": url}\<close>. The
  filename is whatever JSON value the record holds; the URL is always a string.\<close>

record page_ref =
  filename :: json
  url :: string

definition file_url :: "(json \<Rightarrow> string) \<Rightarrow> json \<Rightarrow> json \<Rightarrow> json \<Rightarrow> string" where
  "file_url render reference profile mimetype =
     ''http://dokumentlager.nordiskamuseet.se/binaryDownload/'' @ format_field render reference
       @ ''?profile='' @ format_field render profile
       @ ''&mimeType='' @ format_field render mimetype"

definition is_resource :: "json \<Rightarrow> py_error + bool" where
  "is_resource x = bind_err (getitem x ''entityType'') (\<lambda>t. Inr (t = JStr ''Resource''))"

definition original_file :: "json \<Rightarrow> py_error + json" where
  "original_file x =
     bind_err (getitem x ''properties'') (\<lambda>p. getitem p ''resource.originalFile'')"

definition value_field :: "string \<Rightarrow> json \<Rightarrow> py_error + json" where
  "value_field k x = bind_err (getitem x ''value'') (\<lambda>v. getitem v k)"

definition is_tiff :: "json \<Rightarrow> py_error + bool" where
  "is_tiff x = bind_err (value_field ''mimeType'' x) (\<lambda>m. Inr (m = JStr ''image/tiff''))"

text \<open>The body of the loop \<^verbatim>\<open>for fil in files\<close>: each of the four lists is built in
  full before its element 0 is taken.\<close>

definition page_of_file :: "(json \<Rightarrow> string) \<Rightarrow> json \<Rightarrow> py_error + page_ref" where
  "page_of_file render fil =
     bind_err (py_iter fil) (\<lambda>entries.
     bind_err (comprehension_if is_tiff entries) (\<lambda>images.
     bind_err (bind_err (comprehension (value_field ''reference'') images) first) (\<lambda>reference.
     bind_err (bind_err (comprehension (value_field ''mimeType'') images) first) (\<lambda>mimetype.
     bind_err (bind_err (comprehension (value_field ''profile'') images) first) (\<lambda>profile.
     bind_err (bind_err (comprehension (value_field ''originalFileName'') images) first)
       (\<lambda>fname.
     Inr \<lparr>filename = fname, url = file_url render reference profile mimetype\<rparr>))))))"

fun paths_loop ::
  "(json \<Rightarrow> string) \<Rightarrow> json list \<Rightarrow> page_ref list \<Rightarrow> py_error + page_ref list" where
  "paths_loop render [] paths = Inr paths"
| "paths_loop render (fil # files) paths =
     bind_err (page_of_file render fil) (\<lambda>p. paths_loop render files (paths @ [p]))"

text \<open>\<^verbatim>\<open>get_image_paths\<close> after \<^verbatim>\<open>json.loads\<close>: the two comprehensions over all
  records, then the loop.\<close>

definition image_paths_of :: "(json \<Rightarrow> string) \<Rightarrow> json \<Rightarrow> py_error + page_ref list" where
  "image_paths_of render article_data =
     bind_err (py_iter article_data) (\<lambda>records.
     bind_err (comprehension_if is_resource records) (\<lambda>resources.
     bind_err (comprehension original_file resources) (\<lambda>files.
     paths_loop render files [])))"

definition get_image_paths ::
  "(string \<Rightarrow> py_error + json) \<Rightarrow> (json \<Rightarrow> string) \<Rightarrow> string \<Rightarrow> py_error + page_ref list" where
  "get_image_paths loads render article_data =
     bind_err (loads article_data) (image_paths_of render)"

subsection \<open>The world: a file system, the network, external programs\<close>

text \<open>
  The file system is a table from resolved paths (the names from the root down) to
  nodes; no symbolic links, no permissions, no limit on space. The root always exists,
  and the working directory is taken to be a directory. The table's order is the order
  in which \<^verbatim>\<open>os.listdir\<close> reports entries. What crosses the process
  boundary is recorded in \<open>events\<close>: HTTP requests, external commands, and files opened
  for reading. Console output (\<^verbatim>\<open>print\<close>, the \<^verbatim>\<open>tqdm\<close> bar) is not modelled.
\<close>

type_synonym path = "string list"

datatype node = File string | Dir

type_synonym filesystem = "(path \<times> node) list"

datatype event =
    Get string "(string \<times> string) option"
  | Run "string list"
  | ReadFile string

record world =
  fs :: filesystem
  cwd :: path
  events :: "event list"

text \<open>What the program takes from its libraries and surroundings: the JSON parser,
  \<open>str\<close> of a non-string value, the remote server (one answer per request), the
  external commands' effect on the file system, the search path, the clock at the start
  of \<^verbatim>\<open>main\<close>, the credentials of \<^verbatim>\<open>config\<close>, and the command-line parser.\<close>

record env =
  json_loads :: "string \<Rightarrow> py_error + json"
  py_str :: "json \<Rightarrow> string"
  requests_get :: "string \<Rightarrow> (string \<times> string) option \<Rightarrow> py_error + string"
  subprocess_run :: "string list \<Rightarrow> path \<Rightarrow> filesystem \<Rightarrow> (py_error + unit) \<times> filesystem"
  shutil_which :: "string \<Rightarrow> string option"
  time_strftime :: string
  config_username :: string
  config_password :: string
  argparse :: "string list \<Rightarrow> py_error + (string \<rightharpoonup> string)"

type_synonym 'a io = "world \<Rightarrow> (py_error + 'a) \<times> world"

definition return_io :: "'a \<Rightarrow> 'a io" where
  "return_io x = (\<lambda>w. (Inr x, w))"

definition raise_io :: "py_error \<Rightarrow> 'a io" where
  "raise_io e = (\<lambda>w. (Inl e, w))"

definition bind_io :: "'a io \<Rightarrow> ('a \<Rightarrow> 'b io) \<Rightarrow> 'b io" where
  "bind_io m f = (\<lambda>w. case m w of (Inl e, w') \<Rightarrow> (Inl e, w') | (Inr x, w') \<Rightarrow> f x w')"

definition lift_err :: "py_error + 'a \<Rightarrow> 'a io" where
  "lift_err r = (\<lambda>w. (r, w))"

definition emit :: "event \<Rightarrow> unit io" where
  "emit ev = (\<lambda>w. (Inr (), w\<lparr>events := events w @ [ev]\<rparr>))"

subsubsection \<open>Path resolution\<close>

definition node_at :: "filesystem \<Rightarrow> path \<Rightarrow> node option" where
  "node_at t k = (if k = [] then Some Dir else map_of t k)"

text \<open>The pieces of a path between its slashes: \<^verbatim>\<open>a/b\<close> gives the two pieces
  \<^verbatim>\<open>a\<close> and \<^verbatim>\<open>b\<close>; \<^verbatim>\<open>a/\<close> gives \<^verbatim>\<open>a\<close> and the empty piece.\<close>

fun components :: "string \<Rightarrow> string list" where
  "components [] = [[]]"
| "components (c # cs) =
     (if c = CHR ''/'' then [] # components cs
      else (case components cs of [] \<Rightarrow> [[c]] | x # xs \<Rightarrow> (c # x) # xs))"

text \<open>The length of a string in bytes, as the operating system counts it (UTF-8: a code
  point from 128 on takes two bytes).\<close>

definition byte_length :: "string \<Rightarrow> nat" where
  "byte_length s = sum_list (map (\<lambda>c. if (of_char c :: nat) < 128 then 1 else 2) s)"

text \<open>Walking the components of a path from a directory: \<^verbatim>\<open>.\<close> stays, \<^verbatim>\<open>..\<close> steps up, a
  name of more than 255 bytes is refused (ENAMETOOLONG, an OSError), and every name that
  is followed by a further component must be an existing directory. So \<^verbatim>\<open>a/.\<close> and
  \<^verbatim>\<open>a/..\<close> need the directory \<^verbatim>\<open>a\<close>.\<close>

fun walk :: "filesystem \<Rightarrow> path \<Rightarrow> string list \<Rightarrow> py_error + path" where
  "walk t cur [] = Inr cur"
| "walk t cur (c # cs) =
     (if c = ''.'' then walk t cur cs
      else if c = ''..'' then walk t (butlast cur) cs
      else if 255 < byte_length c then Inl OSError
      else if cs = [] then Inr (cur @ [c])
      else (case node_at t (cur @ [c]) of
              None \<Rightarrow> Inl FileNotFoundError
            | Some (File _) \<Rightarrow> Inl NotADirectoryError
            | Some Dir \<Rightarrow> walk t (cur @ [c]) cs))"

text \<open>Where a path leads: the empty path names nothing, a NUL character is refused by
  Python itself, a path of 4096 bytes or more by the system; repeated and trailing
  slashes name no component.\<close>

definition locate :: "filesystem \<Rightarrow> path \<Rightarrow> string \<Rightarrow> py_error + path" where
  "locate t wd p =
     (if p = [] then Inl FileNotFoundError
      else if CHR 0x00 \<in> set p then Inl ValueError
      else if 4096 \<le> byte_length p then Inl OSError
      else walk t (if hd p = CHR ''/'' then [] else wd)
             (filter (\<lambda>c. c \<noteq> []) (components p)))"

text \<open>A path with a trailing slash.\<close>

definition trailing :: "string \<Rightarrow> bool" where
  "trailing p = (last (components p) = [])"

definition is_file :: "node option \<Rightarrow> bool" where
  "is_file n = (case n of Some (File _) \<Rightarrow> True | _ \<Rightarrow> False)"

text \<open>Looking a path up (\<^verbatim>\<open>stat\<close>, opening for reading, listing, removing): a trailing
  slash on a file is ENOTDIR. Creating at a path (\<^verbatim>\<open>mkdir\<close>, opening for writing) uses
  \<open>locate\<close> and answers a trailing slash on a file itself: FileExistsError,
  IsADirectoryError.\<close>

definition resolve :: "filesystem \<Rightarrow> path \<Rightarrow> string \<Rightarrow> py_error + path" where
  "resolve t wd p =
     bind_err (locate t wd p)
       (\<lambda>k. if trailing p \<and> is_file (node_at t k) then Inl NotADirectoryError else Inr k)"

subsubsection \<open>The operating-system calls the program makes\<close>

definition os_path_exists :: "string \<Rightarrow> world \<Rightarrow> bool" where
  "os_path_exists p w =
     (case resolve (fs w) (cwd w) p of Inl _ \<Rightarrow> False | Inr k \<Rightarrow> node_at (fs w) k \<noteq> None)"

definition os_mkdir :: "string \<Rightarrow> unit io" where
  "os_mkdir p = (\<lambda>w.
     case locate (fs w) (cwd w) p of
       Inl e \<Rightarrow> (Inl e, w)
     | Inr k \<Rightarrow>
         if node_at (fs w) k \<noteq> None then (Inl FileExistsError, w)
         else (case node_at (fs w) (butlast k) of
                 None \<Rightarrow> (Inl FileNotFoundError, w)
               | Some (File _) \<Rightarrow> (Inl NotADirectoryError, w)
               | Some Dir \<Rightarrow> (Inr (), w\<lparr>fs := AList.update k Dir (fs w)\<rparr>)))"

text \<open>Opening a path for writing (truncating it, or appending to it) and writing
  \<open>data\<close>: the target must not be a directory and its parent must be one.\<close>

datatype open_mode = Truncate | Append

definition open_and_write :: "open_mode \<Rightarrow> string \<Rightarrow> string \<Rightarrow> unit io" where
  "open_and_write mode p data = (\<lambda>w.
     case locate (fs w) (cwd w) p of
       Inl e \<Rightarrow> (Inl e, w)
     | Inr k \<Rightarrow>
         if trailing p \<or> node_at (fs w) k = Some Dir then (Inl IsADirectoryError, w)
         else (case node_at (fs w) (butlast k) of
                 None \<Rightarrow> (Inl FileNotFoundError, w)
               | Some (File _) \<Rightarrow> (Inl NotADirectoryError, w)
               | Some Dir \<Rightarrow>
                   (Inr (), w\<lparr>fs := AList.update k
                      (File (case (mode, node_at (fs w) k) of
                               (Append, Some (File old)) \<Rightarrow> old @ data
                             | _ \<Rightarrow> data)) (fs w)\<rparr>)))"

definition open_and_read :: "string \<Rightarrow> string io" where
  "open_and_read p = bind_io (emit (ReadFile p)) (\<lambda>_ w.
     case resolve (fs w) (cwd w) p of
       Inl e \<Rightarrow> (Inl e, w)
     | Inr k \<Rightarrow> (case node_at (fs w) k of
                   None \<Rightarrow> (Inl FileNotFoundError, w)
                 | Some Dir \<Rightarrow> (Inl IsADirectoryError, w)
                 | Some (File content) \<Rightarrow> (Inr content, w)))"

definition children :: "filesystem \<Rightarrow> path \<Rightarrow> string list" where
  "children t k =
     map (\<lambda>kv. last (fst kv)) (filter (\<lambda>kv. fst kv \<noteq> [] \<and> butlast (fst kv) = k) t)"

definition os_listdir :: "string \<Rightarrow> string list io" where
  "os_listdir p = (\<lambda>w.
     case resolve (fs w) (cwd w) p of
       Inl e \<Rightarrow> (Inl e, w)
     | Inr k \<Rightarrow> (case node_at (fs w) k of
                   None \<Rightarrow> (Inl FileNotFoundError, w)
                 | Some (File _) \<Rightarrow> (Inl NotADirectoryError, w)
                 | Some Dir \<Rightarrow> (Inr (children (fs w) k), w)))"

definition os_remove :: "string \<Rightarrow> unit io" where
  "os_remove p = (\<lambda>w.
     case resolve (fs w) (cwd w) p of
       Inl e \<Rightarrow> (Inl e, w)
     | Inr k \<Rightarrow> (case node_at (fs w) k of
                   None \<Rightarrow> (Inl FileNotFoundError, w)
                 | Some Dir \<Rightarrow> (Inl IsADirectoryError, w)
                 | Some (File _) \<Rightarrow> (Inr (), w\<lparr>fs := AList.delete k (fs w)\<rparr>)))"

text \<open>\<^verbatim>\<open>os.path.join(a, b)\<close> on POSIX.\<close>

definition os_path_join :: "string \<Rightarrow> string \<Rightarrow> string" where
  "os_path_join a b =
     (if b \<noteq> [] \<and> hd b = CHR ''/'' then b
      else if a = [] \<or> last a = CHR ''/'' then a @ b
      else a @ ''/'' @ b)"

text \<open>\<^verbatim>\<open>requests.get(url, auth=auth)\<close> and \<^verbatim>\<open>run(cmd, check=True)\<close>.\<close>

definition http_get :: "env \<Rightarrow> string \<Rightarrow> (string \<times> string) option \<Rightarrow> string io" where
  "http_get E u auth = bind_io (emit (Get u auth)) (\<lambda>_. lift_err (requests_get E u auth))"

definition run :: "env \<Rightarrow> string list \<Rightarrow> unit io" where
  "run E cmd = bind_io (emit (Run cmd)) (\<lambda>_ w.
     case subprocess_run E cmd (cwd w) (fs w) of (r, t) \<Rightarrow> (r, w\<lparr>fs := t\<rparr>))"

subsection \<open>\<^verbatim>\<open>create_directory\<close> and \<^verbatim>\<open>file_to_list\<close>\<close>

definition create_directory :: "string \<Rightarrow> string io" where
  "create_directory dirname = (\<lambda>w.
     if \<not> os_path_exists dirname w
     then bind_io (os_mkdir dirname) (\<lambda>_. return_io dirname) w
     else return_io dirname w)"

text \<open>Text mode reads with universal newlines: \<^verbatim>\<open>\r\n\<close> and \<^verbatim>\<open>\r\<close> arrive as
  \<^verbatim>\<open>\n\<close>.\<close>

fun universal_newlines :: "string \<Rightarrow> string" where
  "universal_newlines [] = []"
| "universal_newlines (c # cs) =
     (if c = CHR 0x0D
      then (case cs of
              [] \<Rightarrow> [CHR 0x0A]
            | d # ds \<Rightarrow>
                if d = CHR 0x0A then CHR 0x0A # universal_newlines ds
                else CHR 0x0A # universal_newlines cs)
      else c # universal_newlines cs)"

text \<open>\<^verbatim>\<open>readlines\<close>: each line keeps its newline; a last line without one is a line
  too. \<open>cur\<close> is the line being read.\<close>

fun split_lines :: "string \<Rightarrow> string \<Rightarrow> string list" where
  "split_lines cur [] = (if cur = [] then [] else [cur])"
| "split_lines cur (c # cs) =
     (if c = CHR 0x0A then (cur @ [c]) # split_lines [] cs else split_lines (cur @ [c]) cs)"

definition readlines :: "string \<Rightarrow> string list" where
  "readlines content = split_lines [] (universal_newlines content)"

text \<open>The characters \<^verbatim>\<open>str.strip()\<close> removes, among the code points below 256.\<close>

definition is_space :: "char \<Rightarrow> bool" where
  "is_space c = (let n = (of_char c :: nat) in
     (9 \<le> n \<and> n \<le> 13) \<or> (28 \<le> n \<and> n \<le> 32) \<or> n = 133 \<or> n = 160)"

definition strip :: "string \<Rightarrow> string" where
  "strip s = rev (dropWhile is_space (rev (dropWhile is_space s)))"

definition file_to_list :: "string \<Rightarrow> string list io" where
  "file_to_list fname =
     bind_io (open_and_read fname) (\<lambda>content. return_io (map strip (readlines content)))"

subsection \<open>\<^verbatim>\<open>download_images\<close> and \<^verbatim>\<open>download_files_of_article\<close>\<close>

text \<open>\<^verbatim>\<open>os.path.join(target_dir, url["filename"])\<close>: a filename that is not a string is
  a TypeError.\<close>

definition join_filename :: "string \<Rightarrow> json \<Rightarrow> py_error + string" where
  "join_filename target_dir f =
     (case f of JStr s \<Rightarrow> Inr (os_path_join target_dir s) | _ \<Rightarrow> Inl TypeError)"

fun download_loop :: "env \<Rightarrow> string \<Rightarrow> page_ref list \<Rightarrow> unit io" where
  "download_loop E target_dir [] = return_io ()"
| "download_loop E target_dir (u # us) =
     bind_io (lift_err (join_filename target_dir (filename u))) (\<lambda>path.
     bind_io (http_get E (url u) None) (\<lambda>img_data.
     bind_io (open_and_write Truncate path img_data) (\<lambda>_.
     download_loop E target_dir us)))"

definition download_images :: "env \<Rightarrow> page_ref list \<Rightarrow> string \<Rightarrow> unit io" where
  "download_images E url_list internal_id =
     bind_io (create_directory internal_id) (\<lambda>target_dir.
     download_loop E target_dir url_list)"

definition download_files_of_article :: "env \<Rightarrow> string \<Rightarrow> unit io" where
  "download_files_of_article E internal_id =
     bind_io (http_get E (generate_url internal_id)
                (Some (config_username E, config_password E))) (\<lambda>response.
     bind_io (lift_err (get_image_paths (json_loads E) (py_str E) response))
       (\<lambda>article_images.
     download_images E article_images internal_id))"

subsection \<open>\<^verbatim>\<open>create_djvu\<close>\<close>

definition endswith :: "string \<Rightarrow> string \<Rightarrow> bool" where
  "endswith s suf = (length suf \<le> length s \<and> drop (length s - length suf) s = suf)"

text \<open>\<^verbatim>\<open>enumerate(files, 1)\<close>.\<close>

definition enumerate1 :: "'a list \<Rightarrow> (nat \<times> 'a) list" where
  "enumerate1 xs = zip [1 ..< Suc (length xs)] xs"

definition cjb2_cmd :: "string \<Rightarrow> string \<Rightarrow> string \<Rightarrow> string list" where
  "cjb2_cmd dirname page tmp_djvu =
     [''cjb2'', ''-clean'', os_path_join dirname page, tmp_djvu]"

definition djvm_cmd :: "nat \<Rightarrow> string \<Rightarrow> string \<Rightarrow> string list" where
  "djvm_cmd i book_djvu tmp_djvu =
     (if i = 1 then [''djvm'', ''-c'', book_djvu, tmp_djvu]
      else [''djvm'', ''-i'', book_djvu, tmp_djvu])"

fun djvu_loop :: "env \<Rightarrow> string \<Rightarrow> string \<Rightarrow> string \<Rightarrow> (nat \<times> string) list \<Rightarrow> unit io" where
  "djvu_loop E dirname tmp_djvu book_djvu [] = return_io ()"
| "djvu_loop E dirname tmp_djvu book_djvu ((i, page) # rest) =
     bind_io (run E (cjb2_cmd dirname page tmp_djvu)) (\<lambda>_.
     bind_io (run E (djvm_cmd i book_djvu tmp_djvu)) (\<lambda>_.
     djvu_loop E dirname tmp_djvu book_djvu rest))"

definition tif_files :: "string list \<Rightarrow> string list" where
  "tif_files names = sort (filter (\<lambda>x. endswith x ''.tif'') names)"

definition create_djvu :: "env \<Rightarrow> string \<Rightarrow> unit io" where
  "create_djvu E dirname =
     bind_io (create_directory ''output'') (\<lambda>target_dir.
     let tmp_djvu = ''tmp.djvu'';
         book_djvu = os_path_join target_dir (dirname @ ''.djvu'')
     in bind_io (os_listdir dirname) (\<lambda>names.
        bind_io (djvu_loop E dirname tmp_djvu book_djvu (enumerate1 (tif_files names))) (\<lambda>_.
        os_remove tmp_djvu)))"

subsection \<open>The error log, \<^verbatim>\<open>main\<close> and the entry point\<close>

definition start_error_log :: "env \<Rightarrow> string" where
  "start_error_log E = time_strftime E @ ''.log''"

definition log_weird_article :: "string \<Rightarrow> string \<Rightarrow> unit io" where
  "log_weird_article internal_id error_log =
     open_and_write Append error_log (internal_id @ [CHR 0x0A])"

text \<open>The loop of \<^verbatim>\<open>main\<close>: only IndexError is caught, and only around
  \<^verbatim>\<open>download_files_of_article\<close>; the handler itself and \<^verbatim>\<open>create_djvu\<close> are not
  guarded.\<close>

fun main_loop :: "env \<Rightarrow> string \<Rightarrow> string list \<Rightarrow> unit io" where
  "main_loop E error_log [] = return_io ()"
| "main_loop E error_log (int_id # ids) = (\<lambda>w.
     case download_files_of_article E int_id w of
       (Inl e, w') \<Rightarrow>
         if e = IndexError
         then bind_io (log_weird_article int_id error_log)
                (\<lambda>_. main_loop E error_log ids) w'
         else (Inl e, w')
     | (Inr _, w') \<Rightarrow>
         bind_io (create_djvu E int_id) (\<lambda>_. main_loop E error_log ids) w')"

text \<open>\<^verbatim>\<open>arguments.get("list")\<close> is \<open>None\<close> without the key, and \<^verbatim>\<open>open(None)\<close> is a
  TypeError.\<close>

definition main :: "env \<Rightarrow> (string \<rightharpoonup> string) \<Rightarrow> unit io" where
  "main E arguments =
     (let error_log = start_error_log E
      in bind_io (case arguments ''list'' of
                    None \<Rightarrow> raise_io TypeError
                  | Some fname \<Rightarrow> file_to_list fname) (\<lambda>ids.
         main_loop E error_log ids))"

definition can_djvu :: "env \<Rightarrow> bool" where
  "can_djvu E = (shutil_which E ''djvm'' \<noteq> None \<and> shutil_which E ''cjb2'' \<noteq> None)"

text \<open>The \<^verbatim>\<open>__main__\<close> block, run on the command line \<open>argv\<close>.\<close>

definition program :: "env \<Rightarrow> string list \<Rightarrow> unit io" where
  "program E argv = (\<lambda>w.
     if \<not> can_djvu E
     then raise_io (Exception ''Djvu utils djvm and cjb2 not found.'') w
     else bind_io (lift_err (argparse E argv)) (main E) w)"

subsection \<open>The known shape of a metadata response\<close>

text \<open>
  The specification takes the remote API as a source of JSON of a known shape. These
  predicates say what that shape is, on the JSON value itself and without the
  program's functions: a list of dicts that each carry an entity kind; a dict of the
  tracked kind carries, under \<^verbatim>\<open>properties\<close>, a list \<^verbatim>\<open>resource.originalFile\<close> of
  entries that each carry \<^verbatim>\<open>value.mimeType\<close>; an \<^verbatim>\<open>image/tiff\<close> entry also carries a
  reference, a profile and an original file name.
\<close>

fun dict_get :: "json \<Rightarrow> string \<Rightarrow> json option" where
  "dict_get (JObj kvs) k = map_of kvs k"
| "dict_get _ k = None"

definition entry_field :: "string \<Rightarrow> json \<Rightarrow> json option" where
  "entry_field k e = (case dict_get e ''value'' of None \<Rightarrow> None | Some v \<Rightarrow> dict_get v k)"

definition tiff_entry :: "json \<Rightarrow> bool" where
  "tiff_entry e = (entry_field ''mimeType'' e = Some (JStr ''image/tiff''))"

definition entry_shape :: "json \<Rightarrow> bool" where
  "entry_shape e =
     (entry_field ''mimeType'' e \<noteq> None \<and>
      (tiff_entry e \<longrightarrow>
         entry_field ''reference'' e \<noteq> None \<and> entry_field ''profile'' e \<noteq> None \<and>
         entry_field ''originalFileName'' e \<noteq> None))"

definition tracked :: "json \<Rightarrow> bool" where
  "tracked r = (dict_get r ''entityType'' = Some (JStr ''Resource''))"

definition file_list :: "json \<Rightarrow> json option" where
  "file_list r =
     (case dict_get r ''properties'' of
        None \<Rightarrow> None
      | Some p \<Rightarrow> dict_get p ''resource.originalFile'')"

definition entries_of :: "json \<Rightarrow> json list" where
  "entries_of r = (case file_list r of Some (JArr es) \<Rightarrow> es | _ \<Rightarrow> [])"

definition tiff_entries :: "json \<Rightarrow> json list" where
  "tiff_entries r = filter tiff_entry (entries_of r)"

definition record_shape :: "json \<Rightarrow> bool" where
  "record_shape r =
     (dict_get r ''entityType'' \<noteq> None \<and>
      (tracked r \<longrightarrow>
         (case file_list r of Some (JArr es) \<Rightarrow> list_all entry_shape es | _ \<Rightarrow> False)))"

definition known_shape :: "json \<Rightarrow> bool" where
  "known_shape d = (case d of JArr rs \<Rightarrow> list_all record_shape rs | _ \<Rightarrow> False)"

text \<open>The text a value contributes to the URL, in the specification's words: the
  reference token and the profile themselves when they are strings; for any other value
  Python's \<open>str\<close> of it.\<close>

fun spec_text :: "(json \<Rightarrow> string) \<Rightarrow> json \<Rightarrow> string" where
  "spec_text render (JStr s) = s"
| "spec_text render v = render v"

text \<open>The specification's page reference of a tracked record: the original file name
  of its first \<^verbatim>\<open>image/tiff\<close> entry, and the binaryDownload URL with that entry's
  reference, its profile and the MIME type \<^verbatim>\<open>image/tiff\<close>.\<close>

definition spec_page_reference :: "(json \<Rightarrow> string) \<Rightarrow> json \<Rightarrow> page_ref \<Rightarrow> bool" where
  "spec_page_reference render r p =
     (case tiff_entries r of
        [] \<Rightarrow> False
      | e # _ \<Rightarrow>
          (case (entry_field ''reference'' e, entry_field ''profile'' e,
                 entry_field ''originalFileName'' e) of
             (Some reference, Some profile, Some fname) \<Rightarrow>
               filename p = fname \<and>
               url p = ''http://dokumentlager.nordiskamuseet.se/binaryDownload/''
                 @ spec_text render reference @ ''?profile='' @ spec_text render profile
                 @ ''&mimeType=image/tiff''
           | _ \<Rightarrow> False))"

subsection \<open>Notions used to state the properties\<close>

text \<open>The file a page reference is written to: the resolved path of
  \<^verbatim>\<open>os.path.join(target_dir, filename)\<close> in a world, if there is one.\<close>

definition dest :: "world \<Rightarrow> string \<Rightarrow> page_ref \<Rightarrow> path option" where
  "dest w target_dir u =
     (case filename u of
        JStr s \<Rightarrow> (case resolve (fs w) (cwd w) (os_path_join target_dir s) of
                     Inr k \<Rightarrow> Some k | Inl _ \<Rightarrow> None)
      | _ \<Rightarrow> None)"



text \<open>The external commands among the events, in order.\<close>

definition runs_of :: "event list \<Rightarrow> string list list" where
  "runs_of evs = concat (map (\<lambda>e. case e of Run c \<Rightarrow> [c] | _ \<Rightarrow> []) evs)"

text \<open>The commands the specification asks for, page by page: the encoder
  \<^verbatim>\<open>cjb2 -clean <page> tmp.djvu\<close>, then the merger, \<^verbatim>\<open>djvm -c\<close> (create) for the first
  page and \<^verbatim>\<open>djvm -i\<close> (insert) for every later one.\<close>

fun spec_commands_from :: "bool \<Rightarrow> string \<Rightarrow> string list \<Rightarrow> string list list" where
  "spec_commands_from is_first dirname [] = []"
| "spec_commands_from is_first dirname (page # pages) =
     [''cjb2'', ''-clean'', os_path_join dirname page, ''tmp.djvu'']
     # [''djvm'', (if is_first then ''-c'' else ''-i''),
        os_path_join ''output'' (dirname @ ''.djvu''), ''tmp.djvu'']
     # spec_commands_from False dirname pages"

definition spec_commands :: "string \<Rightarrow> string list \<Rightarrow> string list list" where
  "spec_commands dirname pages = spec_commands_from True dirname pages"

definition is_create :: "string list \<Rightarrow> bool" where
  "is_create cmd = (take 2 cmd = [''djvm'', ''-c''])"

definition is_insert :: "string list \<Rightarrow> bool" where
  "is_insert cmd = (take 2 cmd = [''djvm'', ''-i''])"

text \<open>The file system once the directory \<^verbatim>\<open>output\<close> exists in the working directory.\<close>

definition add_output :: "world \<Rightarrow> filesystem" where
  "add_output w =
     (if node_at (fs w) (cwd w @ [''output'']) = None
      then AList.update (cwd w @ [''output'']) Dir (fs w) else fs w)"

text \<open>The world after the metadata request for an identifier.\<close>

definition fetched :: "env \<Rightarrow> string \<Rightarrow> world \<Rightarrow> world" where
  "fetched E internal_id w =
     w\<lparr>events := events w @
        [Get (generate_url internal_id) (Some (config_username E, config_password E))]\<rparr>"

text \<open>
  Responses outside the known shape. \<open>record_top\<close> holds of a record on which the two
  comprehensions over all records succeed; \<open>complete\<close> of a record of the known shape
  that, if tracked, has an \<^verbatim>\<open>image/tiff\<close> entry. \<open>missing_key\<close> names the key a dict record
  lacks, in the order in which the program would look the keys up: the entity kind; for
  a tracked record the properties, then the original-file list, then \<^verbatim>\<open>value\<close> or
  \<^verbatim>\<open>mimeType\<close> of the first file entry that has no \<^verbatim>\<open>value.mimeType\<close>.
\<close>

definition record_top :: "json \<Rightarrow> bool" where
  "record_top r =
     (dict_get r ''entityType'' \<noteq> None \<and>
      (tracked r \<longrightarrow> (case file_list r of Some (JArr es) \<Rightarrow> True | _ \<Rightarrow> False)))"

definition complete :: "json \<Rightarrow> bool" where
  "complete r = (record_shape r \<and> (tracked r \<longrightarrow> tiff_entries r \<noteq> []))"

definition entry_missing_key :: "json \<Rightarrow> string option" where
  "entry_missing_key e =
     (case e of
        JObj kvs \<Rightarrow>
          (case map_of kvs ''value'' of
             None \<Rightarrow> Some ''value''
           | Some (JObj vkvs) \<Rightarrow>
               if map_of vkvs ''mimeType'' = None then Some ''mimeType'' else None
           | Some _ \<Rightarrow> None)
      | _ \<Rightarrow> None)"

fun entries_missing_key :: "json list \<Rightarrow> string option" where
  "entries_missing_key [] = None"
| "entries_missing_key (e # es) =
     (if entry_field ''mimeType'' e \<noteq> None then entries_missing_key es
      else entry_missing_key e)"

definition missing_key :: "json \<Rightarrow> string option" where
  "missing_key r =
     (case r of
        JObj kvs \<Rightarrow>
          (case map_of kvs ''entityType'' of
             None \<Rightarrow> Some ''entityType''
           | Some t \<Rightarrow>
               if t \<noteq> JStr ''Resource'' then None
               else (case map_of kvs ''properties'' of
                       None \<Rightarrow> Some ''properties''
                     | Some (JObj pkvs) \<Rightarrow>
                         (case map_of pkvs ''resource.originalFile'' of
                            None \<Rightarrow> Some ''resource.originalFile''
                          | Some (JArr es) \<Rightarrow> entries_missing_key es
                          | Some _ \<Rightarrow> None)
                     | Some _ \<Rightarrow> None))
      | _ \<Rightarrow> None)"

subsection \<open>Example data\<close>

text \<open>A remote store, external tools and file systems small enough to run the
  program on by simplification.\<close>

definition example_entry :: "string \<Rightarrow> string \<Rightarrow> json" where
  "example_entry mime name = JObj [(''value'', JObj [(''mimeType'', JStr mime),
     (''reference'', JStr (''ref-'' @ name)), (''profile'', JStr ''original''),
     (''originalFileName'', JStr name)])]"

definition example_record :: "string \<Rightarrow> json list \<Rightarrow> json" where
  "example_record kind entries = JObj [(''entityType'', JStr kind),
     (''properties'', JObj [(''resource.originalFile'', JArr entries)])]"

definition example_records :: "json list" where
  "example_records =
     [example_record ''Resource''
        [example_entry ''application/pdf'' ''p1.pdf'', example_entry ''image/tiff'' ''p1.tif'',
         example_entry ''image/tiff'' ''p1_copy.tif''],
      JObj [(''entityType'', JStr ''Folder'')],
      example_record ''Resource'' [example_entry ''image/tiff'' ''p2.tif'']]"

definition loads_as :: "json \<Rightarrow> string \<Rightarrow> py_error + json" where
  "loads_as d text = Inr d"

definition no_render :: "json \<Rightarrow> string" where
  "no_render v = []"


definition nameless_metadata :: json where
  "nameless_metadata = JArr [example_record ''Resource'' [example_entry ''image/tiff'' []]]"

definition ids_world :: world where
  "ids_world = \<lparr>fs = [([''ids.txt''], File ''a1\<newline>\<newline> a2 \<newline>a1'')], cwd = [], events = []\<rparr>"

definition example_server :: "string \<Rightarrow> (string \<times> string) option \<Rightarrow> py_error + string" where
  "example_server u auth = (if auth = None then Inr (''II*'' @ u) else Inr ''[metadata]'')"

definition example_tools ::
  "string list \<Rightarrow> path \<Rightarrow> filesystem \<Rightarrow> (py_error + unit) \<times> filesystem" where
  "example_tools cmd wd t =
     (case cmd of
        [prog, flag, a, b] \<Rightarrow>
          if prog = ''cjb2'' then (Inr (), AList.update (wd @ [b]) (File (''page '' @ a)) t)
          else if prog = ''djvm'' then
            (Inr (), AList.update (wd @ filter (\<lambda>c. c \<noteq> []) (components a))
               (File (''djvu '' @ flag)) t)
          else (Inl FileNotFoundError, t)
      | _ \<Rightarrow> (Inl FileNotFoundError, t))"

definition example_env :: env where
  "example_env = \<lparr>json_loads = loads_as (JArr example_records), py_str = no_render,
     requests_get = example_server, subprocess_run = example_tools,
     shutil_which = (\<lambda>name. Some (''/usr/bin/'' @ name)),
     time_strftime = ''20180101-120000'', config_username = ''user'',
     config_password = ''secret'',
     argparse = (\<lambda>argv. case argv of
                   [opt, v] \<Rightarrow> if opt = ''--list'' then Inr [''list'' \<mapsto> v] else Inl SystemExit
                 | _ \<Rightarrow> Inl SystemExit)\<rparr>"




definition home_world :: world where
  "home_world = \<lparr>fs = [([''home''], Dir)], cwd = [''home''], events = []\<rparr>"


definition pages_world :: world where
  "pages_world = \<lparr>fs = [([''home''], Dir), ([''home'', ''a1''], Dir),
       ([''home'', ''a1'', ''p2.tif''], File ''two''),
       ([''home'', ''a1'', ''p10.tif''], File ''ten''),
       ([''home'', ''a1'', ''notes.txt''], File ''note''),
       ([''home'', ''a1'', ''p1.tif''], File ''one'')],
     cwd = [''home''], events = []\<rparr>"

definition assembled_world :: world where
  "assembled_world = \<lparr>fs = [([''home''], Dir), ([''home'', ''a1''], Dir),
         ([''home'', ''a1'', ''p2.tif''], File ''two''),
         ([''home'', ''a1'', ''p10.tif''], File ''ten''),
         ([''home'', ''a1'', ''notes.txt''], File ''note''),
         ([''home'', ''a1'', ''p1.tif''], File ''one''),
         ([''home'', ''output''], Dir),
         ([''home'', ''output'', ''a1.djvu''], File ''djvu -i'')],
     cwd = [''home''],
     events =
       [Run [''cjb2'', ''-clean'', ''a1/p1.tif'', ''tmp.djvu''],
        Run [''djvm'', ''-c'', ''output/a1.djvu'', ''tmp.djvu''],
        Run [''cjb2'', ''-clean'', ''a1/p10.tif'', ''tmp.djvu''],
        Run [''djvm'', ''-i'', ''output/a1.djvu'', ''tmp.djvu''],
        Run [''cjb2'', ''-clean'', ''a1/p2.tif'', ''tmp.djvu''],
        Run [''djvm'', ''-i'', ''output/a1.djvu'', ''tmp.djvu'']]\<rparr>"

definition no_pages_start :: world where
  "no_pages_start = \<lparr>fs = [([''home''], Dir), ([''home'', ''a2''], Dir),
       ([''home'', ''a2'', ''scan.tiff''], File ''one'')],
     cwd = [''home''], events = []\<rparr>"

definition no_pages_world :: world where
  "no_pages_world = no_pages_start\<lparr>events :=
     [Get ''https://dokumentlager.nordiskamuseet.se/api/list/a2/0/500''
        (Some (''user'', ''secret''))]\<rparr>"

definition empty_env :: env where
  "empty_env = example_env\<lparr>json_loads := loads_as (JArr [])\<rparr>"

definition malformed_records :: "json list" where
  "malformed_records =
     [example_record ''Resource'' [example_entry ''image/tiff'' ''p1.tif''],
      example_record ''Resource'' [example_entry ''application/pdf'' ''p2.pdf'']]"

definition unkinded_records :: "json list" where
  "unkinded_records =
     [example_record ''Resource'' [example_entry ''application/pdf'' ''p1.pdf''], JObj []]"

definition unkinded_env :: env where
  "unkinded_env = example_env\<lparr>json_loads := loads_as (JArr unkinded_records)\<rparr>"

definition malformed_env :: env where
  "malformed_env = example_env\<lparr>json_loads := loads_as (JArr malformed_records)\<rparr>"

definition failing_env :: "py_error \<Rightarrow> env" where
  "failing_env e = example_env\<lparr>requests_get := (\<lambda>u auth. Inl e)\<rparr>"

definition logged_world :: "string \<Rightarrow> world" where
  "logged_world i =
     \<lparr>fs = [([''home''], Dir), ([''home'', ''20180101-120000.log''], File (i @ ''\<newline>''))],
      cwd = [''home''],
      events = [Get (''https://dokumentlager.nordiskamuseet.se/api/list/'' @ i @ ''/0/500'')
                  (Some (''user'', ''secret''))]\<rparr>"

definition keyless_records :: "json list" where
  "keyless_records = [example_record ''Resource'' [], example_record ''Resource'' [JObj []]]"

definition keyless_env :: env where
  "keyless_env = example_env\<lparr>json_loads := loads_as (JArr keyless_records)\<rparr>"

definition keyless_after_page :: "json list" where
  "keyless_after_page =
     [example_record ''Resource'' [example_entry ''image/tiff'' ''p1.tif''],
      example_record ''Resource'' [JObj []]]"

definition keyless_page_env :: env where
  "keyless_page_env = example_env\<lparr>json_loads := loads_as (JArr keyless_after_page)\<rparr>"

definition scenario_loads :: "string \<Rightarrow> py_error + json" where
  "scenario_loads text =
     (if text = generate_url ''a1'' then Inr (JArr example_records)
      else if text = generate_url ''a2'' then Inr (JArr malformed_records)
      else Inl JSONDecodeError)"

definition scenario_server :: "string \<Rightarrow> (string \<times> string) option \<Rightarrow> py_error + string" where
  "scenario_server u auth = (if auth = None then Inr (''II*'' @ u) else Inr u)"

definition scenario_env :: env where
  "scenario_env = example_env\<lparr>json_loads := scenario_loads, requests_get := scenario_server\<rparr>"

definition scenario_start :: world where
  "scenario_start = \<lparr>fs = [([''home''], Dir), ([''home'', ''ids.txt''], File ''a1\<newline>a2\<newline>'')],
     cwd = [''home''], events = []\<rparr>"

definition scenario_end :: world where
  "scenario_end =
  \<lparr>fs = [([''home''], Dir), ([''home'', ''ids.txt''], File ''a1\<newline>a2\<newline>''),
         ([''home'', ''a1''], Dir),
         ([''home'', ''a1'', ''p1.tif''],
          File
           ''II*http://dokumentlager.nordiskamuseet.se/binaryDownload/ref-p1.tif?profile=original&mimeType=image/tiff''),
         ([''home'', ''a1'', ''p2.tif''],
          File
           ''II*http://dokumentlager.nordiskamuseet.se/binaryDownload/ref-p2.tif?profile=original&mimeType=image/tiff''),
         ([''home'', ''output''], Dir),
         ([''home'', ''output'', ''a1.djvu''], File ''djvu -i''),
         ([''home'', ''20180101-120000.log''], File ''a2\<newline>'')],
     cwd = [''home''],
     events =
       [ReadFile ''ids.txt'',
        Get ''https://dokumentlager.nordiskamuseet.se/api/list/a1/0/500''
         (Some (''user'', ''secret'')),
        Get ''http://dokumentlager.nordiskamuseet.se/binaryDownload/ref-p1.tif?profile=original&mimeType=image/tiff''
         None,
        Get ''http://dokumentlager.nordiskamuseet.se/binaryDownload/ref-p2.tif?profile=original&mimeType=image/tiff''
         None,
        Run [''cjb2'', ''-clean'', ''a1/p1.tif'', ''tmp.djvu''],
        Run [''djvm'', ''-c'', ''output/a1.djvu'', ''tmp.djvu''],
        Run [''cjb2'', ''-clean'', ''a1/p2.tif'', ''tmp.djvu''],
        Run [''djvm'', ''-i'', ''output/a1.djvu'', ''tmp.djvu''],
        Get ''https://dokumentlager.nordiskamuseet.se/api/list/a2/0/500''
         (Some (''user'', ''secret''))]\<rparr>"

section \<open>Properties\<close>

subsection \<open>The reference extractor\<close>

lemma bind_err_Inr_iff: "bind_err m f = Inr y \<longleftrightarrow> (\<exists>x. m = Inr x \<and> f x = Inr y)"
  by (cases m) (simp_all add: bind_err_def)

lemma bind_err_simps [simp]: "bind_err (Inl e) f = Inl e" "bind_err (Inr x) f = f x"
  by (simp_all add: bind_err_def)

lemma comprehension_Inr:
  "comprehension f xs = Inr ys \<Longrightarrow> list_all2 (\<lambda>x y. f x = Inr y) xs ys"
  by (induction xs arbitrary: ys) (auto simp: bind_err_Inr_iff)

lemma comprehension_if_Inr:
  "comprehension_if p xs = Inr ys \<Longrightarrow>
     ys = filter (\<lambda>x. p x = Inr True) xs \<and> (\<forall>x\<in>set xs. \<exists>b. p x = Inr b)"
  by (induction xs arbitrary: ys) (auto simp: bind_err_Inr_iff)

lemma comprehension_total:
  "(\<And>x. x \<in> set xs \<Longrightarrow> f x = Inr (g x)) \<Longrightarrow> comprehension f xs = Inr (map g xs)"
  by (induction xs) simp_all

lemma comprehension_if_total:
  "(\<And>x. x \<in> set xs \<Longrightarrow> p x = Inr (q x)) \<Longrightarrow> comprehension_if p xs = Inr (filter q xs)"
  by (induction xs) simp_all

lemma getitem_dict_get:
  "getitem v k = (case dict_get v k of None \<Rightarrow> (case v of JObj _ \<Rightarrow> Inl (KeyError k) | _ \<Rightarrow> Inl TypeError) | Some x \<Rightarrow> Inr x)"
  by (cases v) (simp_all add: getitem_def split: option.splits)

lemma getitem_Some: "dict_get v k = Some x \<Longrightarrow> getitem v k = Inr x"
  by (simp add: getitem_dict_get)

lemma value_field_Some: "entry_field k e = Some x \<Longrightarrow> value_field k e = Inr x"
  by (auto simp: entry_field_def value_field_def getitem_Some split: option.splits)

lemma is_tiff_shape: "entry_shape e \<Longrightarrow> is_tiff e = Inr (tiff_entry e)"
  by (auto simp: entry_shape_def is_tiff_def tiff_entry_def value_field_Some)

lemma is_resource_shape: "record_shape r \<Longrightarrow> is_resource r = Inr (tracked r)"
  by (auto simp: record_shape_def is_resource_def tracked_def getitem_Some)

lemma first_Cons [simp]: "first (x # xs) = Inr x" "first [] = Inl IndexError"
  by (simp_all add: first_def)

lemma py_iter_JArr [simp]: "py_iter (JArr xs) = Inr xs"
  by (simp add: py_iter_def)

lemma format_field_JStr [simp]: "format_field render (JStr s) = s"
  by (simp add: format_field_def)

lemma page_of_file_no_tiff:
  assumes "list_all entry_shape es" and "filter tiff_entry es = []"
  shows "page_of_file render (JArr es) = Inl IndexError"
proof -
  have "comprehension_if is_tiff es = Inr (filter tiff_entry es)"
    using assms(1) by (intro comprehension_if_total) (simp add: list_all_iff is_tiff_shape)
  then show ?thesis
    using assms(2) by (simp add: page_of_file_def)
qed

lemma page_of_file_tiff:
  assumes shape: "list_all entry_shape es" and tiffs: "filter tiff_entry es = e # rest"
  shows "\<exists>p. page_of_file render (JArr es) = Inr p \<and>
           (\<exists>reference profile.
              entry_field ''reference'' e = Some reference \<and>
              entry_field ''profile'' e = Some profile \<and>
              entry_field ''originalFileName'' e = Some (filename p) \<and>
              url p = file_url render reference profile (JStr ''image/tiff''))"
proof -
  have images: "comprehension_if is_tiff es = Inr (e # rest)"
    using shape tiffs comprehension_if_total [of es is_tiff tiff_entry]
    by (simp add: list_all_iff is_tiff_shape)
  have mem: "x \<in> set (e # rest) \<Longrightarrow> entry_shape x \<and> tiff_entry x" for x
  proof -
    assume "x \<in> set (e # rest)"
    then have "x \<in> set (filter tiff_entry es)" by (simp add: tiffs)
    then show ?thesis using shape by (simp add: list_all_iff)
  qed
  have fld: "k \<in> {''reference'', ''profile'', ''originalFileName'', ''mimeType''} \<Longrightarrow>
      comprehension (value_field k) (e # rest) = Inr (map (\<lambda>x. the (entry_field k x)) (e # rest))"
    for k
  proof (rule comprehension_total)
    fix x assume k: "k \<in> {''reference'', ''profile'', ''originalFileName'', ''mimeType''}"
      and x: "x \<in> set (e # rest)"
    from mem [OF x] have "entry_field k x \<noteq> None"
      using k by (auto simp: entry_shape_def)
    then show "value_field k x = Inr (the (entry_field k x))"
      by (auto simp: value_field_Some)
  qed
  from mem [of e] have e: "entry_shape e" "tiff_entry e" by simp_all
  then obtain reference profile fname where f:
    "entry_field ''reference'' e = Some reference"
    "entry_field ''profile'' e = Some profile"
    "entry_field ''originalFileName'' e = Some fname"
    "entry_field ''mimeType'' e = Some (JStr ''image/tiff'')"
    by (auto simp: entry_shape_def tiff_entry_def)
  have "page_of_file render (JArr es) =
      Inr \<lparr>filename = fname, url = file_url render reference profile (JStr ''image/tiff'')\<rparr>"
    unfolding page_of_file_def by (simp add: images fld f del: comprehension.simps)
  then show ?thesis using f by simp
qed

lemma paths_loop_comprehension:
  "paths_loop render files acc =
     bind_err (comprehension (page_of_file render) files) (\<lambda>ps. Inr (acc @ ps))"
proof (induction files arbitrary: acc)
  case Nil
  show ?case by simp
next
  case (Cons fil files)
  show ?case
    by (cases "page_of_file render fil"; cases "comprehension (page_of_file render) files")
       (simp_all add: Cons.IH)
qed


lemma comprehension_first_error:
  assumes "\<forall>x\<in>set xs. f x = Inl e \<or> (\<exists>y. f x = Inr y)" and "\<exists>x\<in>set xs. f x = Inl e"
  shows "comprehension f xs = Inl e"
  using assms
proof (induction xs)
  case Nil
  then show ?case by simp
next
  case (Cons x xs)
  show ?case
  proof (cases "f x")
    case (Inl a)
    with Cons.prems(1) show ?thesis by auto
  next
    case (Inr y)
    with Cons.prems have "\<exists>x\<in>set xs. f x = Inl e" by auto
    with Cons.IH Cons.prems(1) have "comprehension f xs = Inl e" by simp
    with Inr show ?thesis by simp
  qed
qed


lemma original_file_shape:
  assumes "record_shape r" and "tracked r"
  shows "original_file r = Inr (JArr (entries_of r)) \<and> list_all entry_shape (entries_of r)"
proof -
  from assms obtain es where es: "file_list r = Some (JArr es)" "list_all entry_shape es"
    by (auto simp: record_shape_def split: option.splits json.splits)
  then have "original_file r = Inr (JArr es)"
    by (auto simp: original_file_def file_list_def getitem_Some split: option.splits)
  with es show ?thesis by (simp add: entries_of_def)
qed



lemma format_field_spec_text: "format_field render v = spec_text render v"
  by (cases v) (simp_all add: format_field_def)



lemmas shape_defs = known_shape_def record_shape_def entry_shape_def tracked_def file_list_def
  entries_of_def tiff_entries_def tiff_entry_def entry_field_def example_records_def
  example_record_def example_entry_def

lemmas extract_defs = get_image_paths_def image_paths_of_def example_records_def
  example_record_def example_entry_def is_resource_def getitem_def original_file_def
  page_of_file_def is_tiff_def value_field_def file_url_def loads_as_def no_render_def

lemma example_extraction:
  "image_paths_of (\<lambda>v. []) (JArr example_records) =
     Inr [\<lparr>filename = JStr ''p1.tif'', url = ''http://dokumentlager.nordiskamuseet.se/binaryDownload/ref-p1.tif?profile=original&mimeType=image/tiff''\<rparr>,
          \<lparr>filename = JStr ''p2.tif'', url = ''http://dokumentlager.nordiskamuseet.se/binaryDownload/ref-p2.tif?profile=original&mimeType=image/tiff''\<rparr>]"
  by (simp add: image_paths_of_def example_records_def example_record_def example_entry_def
      is_resource_def getitem_def original_file_def page_of_file_def is_tiff_def value_field_def
      file_url_def)

lemma example_get_image_paths:
  "get_image_paths (loads_as (JArr example_records)) no_render [] =
     Inr [\<lparr>filename = JStr ''p1.tif'', url = ''http://dokumentlager.nordiskamuseet.se/binaryDownload/ref-p1.tif?profile=original&mimeType=image/tiff''\<rparr>,
          \<lparr>filename = JStr ''p2.tif'', url = ''http://dokumentlager.nordiskamuseet.se/binaryDownload/ref-p2.tif?profile=original&mimeType=image/tiff''\<rparr>]"
  by (simp add: extract_defs)



lemma page_of_file_Inr:
  assumes "page_of_file render fil = Inr p"
  shows "\<exists>es e rest reference profile mimetype.
           py_iter fil = Inr es \<and> comprehension_if is_tiff es = Inr (e # rest) \<and>
           value_field ''reference'' e = Inr reference \<and>
           value_field ''profile'' e = Inr profile \<and>
           value_field ''mimeType'' e = Inr mimetype \<and>
           value_field ''originalFileName'' e = Inr (filename p) \<and>
           url p = file_url render reference profile mimetype"
proof -
  have hd: "bind_err (comprehension f xs) first = Inr y \<Longrightarrow> \<exists>x rest. xs = x # rest \<and> f x = Inr y"
    for f :: "json \<Rightarrow> py_error + json" and xs y
    by (cases xs) (auto simp: bind_err_Inr_iff)
  from assms obtain es images reference mimetype profile fname where
    "py_iter fil = Inr es" "comprehension_if is_tiff es = Inr images"
    "bind_err (comprehension (value_field ''reference'') images) first = Inr reference"
    "bind_err (comprehension (value_field ''mimeType'') images) first = Inr mimetype"
    "bind_err (comprehension (value_field ''profile'') images) first = Inr profile"
    "bind_err (comprehension (value_field ''originalFileName'') images) first = Inr fname"
    "p = \<lparr>filename = fname, url = file_url render reference profile mimetype\<rparr>"
    unfolding page_of_file_def bind_err_Inr_iff by blast
  then show ?thesis
    by (fastforce dest!: hd)
qed

lemma comprehension_mem:
  "comprehension f xs = Inr ys \<Longrightarrow> y \<in> set ys \<Longrightarrow> \<exists>x\<in>set xs. f x = Inr y"
  by (induction xs arbitrary: ys) (auto simp: bind_err_Inr_iff)

lemma getitem_iff: "getitem v k = Inr x \<longleftrightarrow> dict_get v k = Some x"
  by (cases v) (auto simp: getitem_def split: option.splits)

lemma value_field_iff: "value_field k e = Inr x \<longleftrightarrow> entry_field k e = Some x"
  by (auto simp: value_field_def entry_field_def bind_err_Inr_iff getitem_iff
      split: option.splits)

lemma is_resource_True_iff: "is_resource r = Inr True \<longleftrightarrow> tracked r"
  by (auto simp: is_resource_def tracked_def bind_err_Inr_iff getitem_iff)

lemma is_tiff_True_iff: "is_tiff e = Inr True \<longleftrightarrow> tiff_entry e"
  by (auto simp: is_tiff_def tiff_entry_def bind_err_Inr_iff value_field_iff)

lemma py_iter_of_dicts:
  assumes "py_iter v = Inr es" and "x \<in> set es" and "getitem x k = Inr y"
  shows "v = JArr es"
  using assms by (cases v) (auto simp: py_iter_def getitem_def)

lemma page_is_spec:
  assumes r: "original_file r = Inr fil" and p: "page_of_file render fil = Inr p"
  shows "spec_page_reference render r p"
proof -
  from page_of_file_Inr [OF p] obtain es e rest reference profile mimetype where
    es: "py_iter fil = Inr es" and im: "comprehension_if is_tiff es = Inr (e # rest)"
    and f: "value_field ''reference'' e = Inr reference"
      "value_field ''profile'' e = Inr profile"
      "value_field ''mimeType'' e = Inr mimetype"
      "value_field ''originalFileName'' e = Inr (filename p)"
    and u: "url p = file_url render reference profile mimetype"
    by blast
  from comprehension_if_Inr [OF im] have
    sel: "e # rest = filter (\<lambda>x. is_tiff x = Inr True) es" by simp
  then have tiffs: "filter tiff_entry es = e # rest"
    by (simp add: is_tiff_True_iff)
  have "e \<in> set (filter tiff_entry es)" by (simp add: tiffs)
  then have e: "e \<in> set es" "tiff_entry e" by simp_all
  from f(1) obtain v where "getitem e ''value'' = Inr v"
    by (auto simp: value_field_def bind_err_Inr_iff)
  from py_iter_of_dicts [OF es e(1) this] have fil: "fil = JArr es" .
  from r have "file_list r = Some fil"
    by (auto simp: original_file_def file_list_def bind_err_Inr_iff getitem_iff)
  with fil tiffs have t: "tiff_entries r = e # rest"
    by (simp add: tiff_entries_def entries_of_def)
  from e(2) f(3) have m: "mimetype = JStr ''image/tiff''"
    by (simp add: tiff_entry_def value_field_iff)
  from f have "entry_field ''reference'' e = Some reference"
    "entry_field ''profile'' e = Some profile"
    "entry_field ''originalFileName'' e = Some (filename p)"
    by (simp_all add: value_field_iff)
  with t u m show ?thesis
    by (simp add: spec_page_reference_def file_url_def format_field_spec_text)
qed

lemma list_all2_mem:
  "list_all2 P xs ys \<Longrightarrow> y \<in> set ys \<Longrightarrow> \<exists>x\<in>set xs. P x y"
  by (induction rule: list_all2_induct) auto

lemma extraction_success_pages:
  assumes "image_paths_of render (JArr rs) = Inr pages"
  shows "list_all2 (spec_page_reference render) (filter tracked rs) pages"
proof -
  from assms obtain resources files where
    res: "comprehension_if is_resource rs = Inr resources"
    and files: "comprehension original_file resources = Inr files"
    and loop: "paths_loop render files [] = Inr pages"
    unfolding image_paths_of_def bind_err_Inr_iff by auto
  from comprehension_if_Inr [OF res] have resources: "resources = filter tracked rs"
    by (simp add: is_resource_True_iff)
  from loop have "comprehension (page_of_file render) files = Inr pages"
    by (simp add: paths_loop_comprehension bind_err_Inr_iff)
  from comprehension_Inr [OF files] comprehension_Inr [OF this]
  have "list_all2 (\<lambda>r p. \<exists>fil. original_file r = Inr fil \<and> page_of_file render fil = Inr p)
      resources pages"
    by (rule list_all2_trans [rotated]) blast
  then show ?thesis
    unfolding resources by (rule list_all2_mono) (auto intro: page_is_spec)
qed

text \<open>
  C7, as the code has it. When extraction succeeds, every page reference returned has a
  non-empty URL and is the specification's page reference of a record of the tracked
  kind in the response: its file name is the \<^verbatim>\<open>originalFileName\<close> value of that record's
  first \<^verbatim>\<open>image/tiff\<close> entry, exactly as the response gives it. Nothing makes the file name
  non-empty, or a string.
\<close>

theorem page_reference_url_and_filename:
  assumes "get_image_paths loads render text = Inr pages" and "p \<in> set pages"
  shows "url p \<noteq> [] \<and>
         (\<exists>rs r e rest.
            loads text = Inr (JArr rs) \<and> r \<in> set rs \<and> tracked r \<and>
            tiff_entries r = e # rest \<and>
            entry_field ''originalFileName'' e = Some (filename p) \<and>
            spec_page_reference render r p)"
proof -
  from assms(1) obtain d rs resources where d: "loads text = Inr d" "py_iter d = Inr rs"
    and paths: "image_paths_of render d = Inr pages"
    and res: "comprehension_if is_resource rs = Inr resources"
    and files: "\<exists>files. comprehension original_file resources = Inr files \<and>
        comprehension (page_of_file render) files = Inr pages"
    unfolding get_image_paths_def image_paths_of_def bind_err_Inr_iff
    by (auto simp: paths_loop_comprehension bind_err_Inr_iff image_paths_of_def)
  from files assms(2) obtain r0 where "r0 \<in> set resources"
    by (metis comprehension_mem)
  with comprehension_if_Inr [OF res] have "r0 \<in> set rs" "is_resource r0 = Inr True"
    by simp_all
  then obtain t where "r0 \<in> set rs" "getitem r0 ''entityType'' = Inr t"
    by (auto simp: is_resource_def bind_err_Inr_iff)
  from py_iter_of_dicts [OF d(2) this] have arr: "d = JArr rs" .
  from list_all2_mem [OF extraction_success_pages [OF paths [unfolded arr]] assms(2)]
  obtain r where r: "r \<in> set (filter tracked rs)" "spec_page_reference render r p"
    by blast
  from r(2) obtain e rest where e: "tiff_entries r = e # rest"
    "entry_field ''originalFileName'' e = Some (filename p)" "url p \<noteq> []"
    by (auto simp: spec_page_reference_def split: list.splits option.splits)
  with r d(1) arr show ?thesis by auto
qed

text \<open>
  C7 as stated fails: an entry whose \<^verbatim>\<open>originalFileName\<close> is the empty string is
  extracted without complaint, and the page reference has an empty file name.
\<close>

theorem page_reference_empty_filename:
  "get_image_paths (loads_as nameless_metadata) no_render [] =
     Inr [\<lparr>filename = JStr [],
           url = ''http://dokumentlager.nordiskamuseet.se/binaryDownload/ref-?profile=original&mimeType=image/tiff''\<rparr>]"
  by (simp add: extract_defs nameless_metadata_def)

text \<open>
  C7 as amended, on the second page of the example response.
\<close>

theorem page_reference_url_and_filename_witness:
  "get_image_paths (loads_as (JArr example_records)) no_render [] =
     Inr [\<lparr>filename = JStr ''p1.tif'', url = ''http://dokumentlager.nordiskamuseet.se/binaryDownload/ref-p1.tif?profile=original&mimeType=image/tiff''\<rparr>,
          \<lparr>filename = JStr ''p2.tif'', url = ''http://dokumentlager.nordiskamuseet.se/binaryDownload/ref-p2.tif?profile=original&mimeType=image/tiff''\<rparr>] \<and>
   url \<lparr>filename = JStr ''p2.tif'', url = ''http://dokumentlager.nordiskamuseet.se/binaryDownload/ref-p2.tif?profile=original&mimeType=image/tiff''\<rparr> \<noteq> [] \<and>
   (\<exists>rs r e rest.
      loads_as (JArr example_records) [] = Inr (JArr rs) \<and> r \<in> set rs \<and> tracked r \<and>
      tiff_entries r = e # rest \<and>
      entry_field ''originalFileName'' e = Some (JStr ''p2.tif'') \<and>
      spec_page_reference no_render r \<lparr>filename = JStr ''p2.tif'', url = ''http://dokumentlager.nordiskamuseet.se/binaryDownload/ref-p2.tif?profile=original&mimeType=image/tiff''\<rparr>)"
proof -
  let ?p = "\<lparr>filename = JStr ''p2.tif'', url = ''http://dokumentlager.nordiskamuseet.se/binaryDownload/ref-p2.tif?profile=original&mimeType=image/tiff''\<rparr>"
  have h: "?p \<in> set [\<lparr>filename = JStr ''p1.tif'', url = ''http://dokumentlager.nordiskamuseet.se/binaryDownload/ref-p1.tif?profile=original&mimeType=image/tiff''\<rparr>, ?p]"
    by simp
  from page_reference_url_and_filename [OF example_get_image_paths h] example_get_image_paths
  show ?thesis by simp
qed

subsection \<open>The identifier loader\<close>

lemma bind_io_apply:
  "bind_io m f w = (case m w of (Inl e, w') \<Rightarrow> (Inl e, w') | (Inr x, w') \<Rightarrow> f x w')"
  by (simp add: bind_io_def)

lemma return_io_apply [simp]: "return_io x w = (Inr x, w)"
  by (simp add: return_io_def)

lemma raise_io_apply [simp]: "raise_io e w = (Inl e, w)"
  by (simp add: raise_io_def)

lemma lift_err_apply [simp]: "lift_err r w = (r, w)"
  by (simp add: lift_err_def)

lemma emit_apply [simp]: "emit ev w = (Inr (), w\<lparr>events := events w @ [ev]\<rparr>)"
  by (simp add: emit_def)

lemma concat_split_lines: "concat (split_lines cur s) = cur @ s"
  by (induction s arbitrary: cur) simp_all

lemma split_lines_line:
  "CHR 0x0A \<notin> set cur \<Longrightarrow>
     \<forall>l\<in>set (split_lines cur s). l \<noteq> [] \<and> CHR 0x0A \<notin> set (butlast l)"
proof (induction s arbitrary: cur)
  case Nil
  then show ?case by (auto dest: in_set_butlastD)
next
  case (Cons c s)
  show ?case
  proof (cases "c = CHR 0x0A")
    case True
    have "\<forall>l\<in>set (split_lines [] s). l \<noteq> [] \<and> CHR 0x0A \<notin> set (butlast l)"
      by (rule Cons.IH) simp
    with True Cons.prems show ?thesis by (simp add: butlast_append)
  next
    case False
    have "\<forall>l\<in>set (split_lines (cur @ [c]) s). l \<noteq> [] \<and> CHR 0x0A \<notin> set (butlast l)"
      by (rule Cons.IH) (use False Cons.prems in auto)
    with False show ?thesis by simp
  qed
qed

lemma length_split_lines:
  "length (split_lines cur s) =
     count_list s (CHR 0x0A) + (if cur @ s = [] \<or> (s \<noteq> [] \<and> last s = CHR 0x0A) then 0 else 1)"
  by (induction s arbitrary: cur) auto

lemma dropWhile_hd: "dropWhile P xs = [] \<or> \<not> P (hd (dropWhile P xs))"
  by (induction xs) auto

lemma strip_ends: "strip s = [] \<or> (\<not> is_space (hd (strip s)) \<and> \<not> is_space (last (strip s)))"
proof (cases "strip s = []")
  case True
  then show ?thesis by simp
next
  case False
  let ?a = "dropWhile is_space s"
  let ?b = "dropWhile is_space (rev ?a)"
  from False have b: "?b \<noteq> []" by (simp add: strip_def)
  then have a: "?a \<noteq> []" by (metis dropWhile.simps(1) rev.simps(1))
  from b dropWhile_hd [of is_space "rev ?a"] have "\<not> is_space (hd ?b)" by blast
  then have last: "\<not> is_space (last (strip s))"
    using b by (simp add: strip_def last_rev)
  from a dropWhile_hd [of is_space s] have ha: "\<not> is_space (hd ?a)" by blast
  have "\<exists>ws. rev ?a = ws @ ?b"
    by (metis takeWhile_dropWhile_id)
  then obtain ws where "rev ?a = ws @ ?b" ..
  then have "?a = rev ?b @ rev ws" by (metis rev_append rev_rev_ident)
  with b have "hd ?a = hd (rev ?b)" by (metis hd_append2 rev_is_Nil_conv)
  with ha have "\<not> is_space (hd (strip s))" by (simp add: strip_def)
  with last show ?thesis by simp
qed

lemma strip_middle:
  "\<exists>pre post. s = pre @ strip s @ post \<and> list_all is_space pre \<and> list_all is_space post"
proof -
  let ?a = "dropWhile is_space s"
  have s: "s = takeWhile is_space s @ ?a" by simp
  have "rev ?a = takeWhile is_space (rev ?a) @ dropWhile is_space (rev ?a)" by simp
  then have "?a = rev (dropWhile is_space (rev ?a)) @ rev (takeWhile is_space (rev ?a))"
    by (metis rev_append rev_rev_ident)
  then have a: "?a = strip s @ rev (takeWhile is_space (rev ?a))" by (simp add: strip_def)
  have "s = takeWhile is_space s @ strip s @ rev (takeWhile is_space (rev ?a))"
    using s a by metis
  moreover have "list_all is_space (takeWhile is_space s)"
    by (simp add: list_all_iff) (meson set_takeWhileD)
  moreover have "list_all is_space (rev (takeWhile is_space (rev ?a)))"
    by (simp add: list_all_iff) (meson set_takeWhileD)
  ultimately show ?thesis by blast
qed

lemma universal_newlines_Nil: "universal_newlines s = [] \<longleftrightarrow> s = []"
  by (cases s) (auto split: list.splits)

lemmas fs_defs = open_and_read_def resolve_def locate_def byte_length_def node_at_def
  trailing_def is_file_def

text \<open>
  C5, as the code has it. For an input file that exists, \<^verbatim>\<open>file_to_list\<close> returns one
  entry per line of the text, in file order and with duplicates kept: the lines cut the
  text (read with universal newlines) into pieces that each end at a newline or at the
  end of the file, there are as many of them as newlines, plus one when the text does
  not end with a newline, and each entry is its line without the whitespace at both
  ends. An entry is empty when its line holds nothing but whitespace.
\<close>

theorem file_to_list_entry_per_line:
  assumes "resolve (fs w) (cwd w) fname = Inr k" and "node_at (fs w) k = Some (File content)"
  shows "file_to_list fname w =
           (Inr (map strip (readlines content)), w\<lparr>events := events w @ [ReadFile fname]\<rparr>) \<and>
         concat (readlines content) = universal_newlines content \<and>
         length (readlines content) =
           count_list (universal_newlines content) (CHR 0x0A) +
             (if content = [] \<or> last (universal_newlines content) = CHR 0x0A then 0 else 1) \<and>
         (\<forall>l\<in>set (readlines content).
            l \<noteq> [] \<and> CHR 0x0A \<notin> set (butlast l) \<and>
            (\<exists>pre post. l = pre @ strip l @ post \<and> list_all is_space pre \<and>
               list_all is_space post) \<and>
            (strip l = [] \<or> (\<not> is_space (hd (strip l)) \<and> \<not> is_space (last (strip l)))))"
proof -
  have "file_to_list fname w =
      (Inr (map strip (readlines content)), w\<lparr>events := events w @ [ReadFile fname]\<rparr>)"
    using assms by (simp add: file_to_list_def open_and_read_def bind_io_def)
  moreover have "concat (readlines content) = universal_newlines content"
    by (simp add: readlines_def concat_split_lines)
  moreover have "length (readlines content) =
      count_list (universal_newlines content) (CHR 0x0A) +
        (if content = [] \<or> last (universal_newlines content) = CHR 0x0A then 0 else 1)"
    by (simp add: readlines_def length_split_lines universal_newlines_Nil)
  moreover have "\<forall>l\<in>set (readlines content). l \<noteq> [] \<and> CHR 0x0A \<notin> set (butlast l)"
    unfolding readlines_def by (rule split_lines_line) simp
  ultimately show ?thesis
    using strip_middle strip_ends by blast
qed

text \<open>
  C5 as stated fails: the entries are not all non-empty. A blank line in the file
  gives the empty string; a repeated identifier is kept.
\<close>

theorem file_to_list_blank_line:
  "file_to_list ''ids.txt'' ids_world =
     (Inr [''a1'', [], ''a2'', ''a1''], ids_world\<lparr>events := [ReadFile ''ids.txt'']\<rparr>)"
  by (simp add: file_to_list_def fs_defs bind_io_apply ids_world_def readlines_def strip_def
      is_space_def)

text \<open>
  C5 as amended, on the file of four lines used above.
\<close>

theorem file_to_list_entry_per_line_witness:
  "resolve (fs ids_world) (cwd ids_world) ''ids.txt'' = Inr [''ids.txt''] \<and>
   node_at (fs ids_world) [''ids.txt''] = Some (File ''a1\<newline>\<newline> a2 \<newline>a1'') \<and>
   fst (file_to_list ''ids.txt'' ids_world) =
     Inr (map strip (readlines ''a1\<newline>\<newline> a2 \<newline>a1'')) \<and>
   length (readlines ''a1\<newline>\<newline> a2 \<newline>a1'') = 4"
proof -
  have h1: "resolve (fs ids_world) (cwd ids_world) ''ids.txt'' = Inr [''ids.txt'']"
    by (simp add: fs_defs ids_world_def)
  have h2: "node_at (fs ids_world) [''ids.txt''] = Some (File ''a1\<newline>\<newline> a2 \<newline>a1'')"
    by (simp add: fs_defs ids_world_def)
  from file_to_list_entry_per_line [OF h1 h2] show ?thesis
    using h1 h2 by simp
qed

subsection \<open>The file system and the image downloader\<close>

lemma node_at_update:
  "node_at (AList.update k v t) k' = (if k' = [] then Some Dir else if k' = k then Some v else node_at t k')"
  by (simp add: node_at_def update_conv')

lemma node_at_delete:
  "node_at (AList.delete k t) k' = (if k' = [] then Some Dir else if k' = k then None else node_at t k')"
  by (simp add: node_at_def delete_conv')

lemma node_at_root [simp]: "node_at t [] = Some Dir"
  by (simp add: node_at_def)

lemma walk_mono:
  assumes "\<And>k. node_at t k = Some Dir \<Longrightarrow> node_at t' k = Some Dir"
  shows "walk t cur cs = Inr r \<Longrightarrow> walk t' cur cs = Inr r"
proof (induction cs arbitrary: cur)
  case Nil
  then show ?case by simp
next
  case (Cons c cs)
  show ?case
  proof (cases "c = ''.'' \<or> c = ''..''")
    case True
    with Cons show ?thesis by auto
  next
    case False
    with Cons.prems have len: "\<not> 255 < byte_length c"
      by (auto split: if_splits)
    show ?thesis
    proof (cases "cs = []")
      case True
      with False len Cons show ?thesis by simp
    next
      case cs: False
      from Cons.prems False len cs have d: "node_at t (cur @ [c]) = Some Dir"
        by (auto split: option.splits node.splits)
      with Cons.prems False len cs have "walk t (cur @ [c]) cs = Inr r" by simp
      then have "walk t' (cur @ [c]) cs = Inr r" by (rule Cons.IH)
      with assms [OF d] False len cs show ?thesis by simp
    qed
  qed
qed

lemma locate_mono:
  assumes "\<And>k. node_at t k = Some Dir \<Longrightarrow> node_at t' k = Some Dir"
    and "locate t wd p = Inr k"
  shows "locate t' wd p = Inr k"
proof -
  from assms(2) have a: "p \<noteq> []" "CHR 0x00 \<notin> set p" "\<not> 4096 \<le> byte_length p"
    and w: "walk t (if hd p = CHR ''/'' then [] else wd)
       (filter (\<lambda>c. c \<noteq> []) (components p)) = Inr k"
    by (auto simp: locate_def split: if_splits)
  from w have "walk t' (if hd p = CHR ''/'' then [] else wd)
       (filter (\<lambda>c. c \<noteq> []) (components p)) = Inr k"
    by (rule walk_mono [rotated]) (rule assms(1))
  with a show ?thesis by (simp add: locate_def)
qed

lemma resolve_Inr_iff:
  "resolve t wd p = Inr k \<longleftrightarrow>
     locate t wd p = Inr k \<and> \<not> (trailing p \<and> is_file (node_at t k))"
  by (auto simp: resolve_def bind_err_Inr_iff)





lemma http_get_apply:
  "http_get E u auth w = (requests_get E u auth, w\<lparr>events := events w @ [Get u auth]\<rparr>)"
  by (simp add: http_get_def bind_io_def)





lemma create_directory_Inr:
  assumes "create_directory d w = (Inr d', w1)"
  shows "d' = d \<and> (\<exists>k0. resolve (fs w) (cwd w) d = Inr k0 \<and>
           (if node_at (fs w) k0 = None then w1 = w\<lparr>fs := AList.update k0 Dir (fs w)\<rparr>
            else w1 = w))"
proof (cases "os_path_exists d w")
  case True
  with assms show ?thesis
    by (auto simp: create_directory_def os_path_exists_def split: sum.splits)
next
  case False
  with assms have m: "os_mkdir d w = (Inr (), w1)" and d: "d' = d"
    by (auto simp: create_directory_def bind_io_apply split: prod.splits sum.splits)
  then obtain k0 where l0: "locate (fs w) (cwd w) d = Inr k0"
    by (cases "locate (fs w) (cwd w) d") (auto simp: os_mkdir_def)
  with m have n: "node_at (fs w) k0 = None \<and> w1 = w\<lparr>fs := AList.update k0 Dir (fs w)\<rparr>"
    by (auto simp: os_mkdir_def split: if_splits option.splits node.splits)
  with l0 have "resolve (fs w) (cwd w) d = Inr k0"
    by (simp add: resolve_Inr_iff is_file_def)
  with d n show ?thesis by simp
qed





lemmas os_defs = create_directory_def os_path_exists_def os_mkdir_def open_and_write_def
  os_listdir_def os_remove_def children_def os_path_join_def join_filename_def run_def
  bind_io_apply http_get_apply fs_defs












subsection \<open>The document assembler\<close>

lemma runs_of_append [simp]: "runs_of (xs @ ys) = runs_of xs @ runs_of ys"
  by (simp add: runs_of_def)

lemma runs_of_simps [simp]:
  "runs_of [] = []" "runs_of (Run c # evs) = c # runs_of evs"
  "runs_of (Get u a # evs) = runs_of evs" "runs_of (ReadFile p # evs) = runs_of evs"
  by (simp_all add: runs_of_def)

lemma run_apply:
  "run E cmd w = (case subprocess_run E cmd (cwd w) (fs w) of
                    (r, t) \<Rightarrow> (r, w\<lparr>events := events w @ [Run cmd], fs := t\<rparr>))"
  by (simp add: run_def bind_io_apply split: prod.splits)

lemma run_result:
  assumes "run E cmd w = (r, w')"
  shows "cwd w' = cwd w \<and> events w' = events w @ [Run cmd]"
  using assms by (auto simp: run_apply split: prod.splits)

lemma spec_commands_from_not_first:
  "filter is_create (spec_commands_from False d pages) = [] \<and>
   length (filter is_insert (spec_commands_from False d pages)) = length pages"
  by (induction pages) (simp_all add: is_create_def is_insert_def)

lemma spec_commands_counts:
  "length (filter is_create (spec_commands d pages)) = (if pages = [] then 0 else 1) \<and>
   length (filter is_insert (spec_commands d pages)) = length pages - 1"
  by (cases pages) (simp_all add: spec_commands_def spec_commands_from_not_first is_create_def
      is_insert_def)

lemma enumerate_commands:
  "concat (map (\<lambda>(i, page). [cjb2_cmd d page ''tmp.djvu'',
        djvm_cmd i (os_path_join ''output'' (d @ ''.djvu'')) ''tmp.djvu''])
      (zip [i ..< i + length pages] pages)) = spec_commands_from (i = 1) d pages"
  if "0 < i"
  using that
proof (induction pages arbitrary: i)
  case Nil
  then show ?case by simp
next
  case (Cons p ps)
  have "[i ..< i + length (p # ps)] = i # [Suc i ..< Suc i + length ps]"
    by (simp add: upt_rec)
  moreover have "spec_commands_from (Suc i = 1) d ps = spec_commands_from False d ps"
    using Cons.prems by simp
  ultimately show ?case
    using Cons.IH [of "Suc i"] by (simp add: cjb2_cmd_def djvm_cmd_def)
qed

lemma enumerate1_commands:
  "concat (map (\<lambda>(i, page). [cjb2_cmd d page ''tmp.djvu'',
        djvm_cmd i (os_path_join ''output'' (d @ ''.djvu'')) ''tmp.djvu''])
      (enumerate1 pages)) = spec_commands d pages"
  using enumerate_commands [of 1 d pages] by (simp add: enumerate1_def spec_commands_def)

lemma djvu_loop_runs:
  assumes "djvu_loop E d tmp book ps w = (r, w')"
  shows "cwd w' = cwd w \<and>
         (\<exists>n. events w' = events w @
            map Run (take n (concat (map (\<lambda>(i, page). [cjb2_cmd d page tmp, djvm_cmd i book tmp]) ps)))) \<and>
         (r = Inr () \<longrightarrow> events w' = events w @
            map Run (concat (map (\<lambda>(i, page). [cjb2_cmd d page tmp, djvm_cmd i book tmp]) ps)))"
  using assms
proof (induction ps arbitrary: w)
  case Nil
  then show ?case by auto
next
  case (Cons ip ps)
  obtain i page where ip: "ip = (i, page)" by (cases ip)
  let ?rest = "concat (map (\<lambda>(i, page). [cjb2_cmd d page tmp, djvm_cmd i book tmp]) ps)"
  obtain r1 w1 where r1: "run E (cjb2_cmd d page tmp) w = (r1, w1)" by (cases "run E (cjb2_cmd d page tmp) w")
  note R1 = run_result [OF r1]
  show ?case
  proof (cases r1)
    case (Inl e)
    with Cons.prems ip r1 have "r = Inl e" "w' = w1" by (simp_all add: bind_io_apply)
    with R1 have "cwd w' = cwd w"
      "events w' = events w @ map Run (take 1 (concat (map (\<lambda>(i, page). [cjb2_cmd d page tmp, djvm_cmd i book tmp]) (ip # ps))))"
      by (simp_all add: ip)
    with \<open>r = Inl e\<close> show ?thesis by blast
  next
    case (Inr u)
    obtain r2 w2 where r2: "run E (djvm_cmd i book tmp) w1 = (r2, w2)"
      by (cases "run E (djvm_cmd i book tmp) w1")
    note R2 = run_result [OF r2]
    show ?thesis
    proof (cases r2)
      case (Inl e)
      with Cons.prems ip r1 Inr r2 have "r = Inl e" "w' = w2" by (simp_all add: bind_io_apply)
      with R1 R2 have "cwd w' = cwd w"
        "events w' = events w @ map Run (take 2 (concat (map (\<lambda>(i, page). [cjb2_cmd d page tmp, djvm_cmd i book tmp]) (ip # ps))))"
        by (simp_all add: ip)
      with \<open>r = Inl e\<close> show ?thesis by blast
    next
      case (Inr u2)
      with Cons.prems ip r1 \<open>r1 = Inr u\<close> r2 have l: "djvu_loop E d tmp book ps w2 = (r, w')"
        by (simp add: bind_io_apply)
      from Cons.IH [OF l] obtain n where
        c: "cwd w' = cwd w2" and n: "events w' = events w2 @ map Run (take n ?rest)"
        and full: "r = Inr () \<longrightarrow> events w' = events w2 @ map Run ?rest"
        by blast
      from n R1 R2 have "events w' = events w @
          map Run (take (Suc (Suc n)) (concat (map (\<lambda>(i, page). [cjb2_cmd d page tmp, djvm_cmd i book tmp]) (ip # ps))))"
        by (simp add: ip)
      moreover from full R1 R2 have "r = Inr () \<longrightarrow> events w' = events w @
          map Run (concat (map (\<lambda>(i, page). [cjb2_cmd d page tmp, djvm_cmd i book tmp]) (ip # ps)))"
        by (simp add: ip)
      moreover from c R1 R2 have "cwd w' = cwd w" by simp
      ultimately show ?thesis by blast
    qed
  qed
qed

lemma resolve_add_dir:
  assumes "node_at t k0 = None" and "resolve t wd p = Inr k"
  shows "resolve (AList.update k0 Dir t) wd p = Inr k"
proof -
  let ?t = "AList.update k0 Dir t"
  from assms(2) have w: "locate t wd p = Inr k"
    and f: "\<not> (trailing p \<and> is_file (node_at t k))"
    by (simp_all add: resolve_Inr_iff)
  have "node_at t k' = Some Dir \<Longrightarrow> node_at ?t k' = Some Dir" for k'
    by (simp add: node_at_update)
  from locate_mono [OF this w] have "locate ?t wd p = Inr k" .
  moreover from f have "\<not> (trailing p \<and> is_file (node_at ?t k))"
    by (auto simp: node_at_update is_file_def)
  ultimately show ?thesis by (simp add: resolve_Inr_iff)
qed

lemma resolve_literal:
  "resolve t wd ''output'' = Inr (wd @ [''output''])"
  "resolve t wd ''tmp.djvu'' = Inr (wd @ [''tmp.djvu''])"
  "locate t wd ''output'' = Inr (wd @ [''output''])"
  by (simp_all add: resolve_def locate_def byte_length_def trailing_def)

lemma update_absent: "map_of al k = None \<Longrightarrow> AList.update k v al = al @ [(k, v)]"
  by (induction al) (auto split: if_splits)

lemma create_directory_frame:
  assumes "create_directory d w = (r, w1)"
  shows "events w1 = events w \<and> cwd w1 = cwd w"
proof (cases r)
  case (Inr d')
  with create_directory_Inr [of d w d' w1] assms show ?thesis
    by (auto split: if_splits)
next
  case (Inl e)
  with assms show ?thesis
    by (auto simp: create_directory_def os_mkdir_def bind_io_apply
        split: if_splits sum.splits option.splits node.splits prod.splits)
qed

lemma os_listdir_Inr:
  "os_listdir p w = (Inr names, w') \<longleftrightarrow>
     w' = w \<and> (\<exists>k. resolve (fs w) (cwd w) p = Inr k \<and> node_at (fs w) k = Some Dir \<and>
                  names = children (fs w) k)"
  by (auto simp: os_listdir_def split: sum.splits option.splits node.splits)

lemma listdir_after_create_output:
  assumes c: "create_directory ''output'' w = (Inr d, w1)"
    and l: "os_listdir dirname w = (Inr names, w0)"
  shows "\<exists>names1. os_listdir dirname w1 = (Inr names1, w1) \<and>
           filter (\<lambda>x. endswith x ''.tif'') names1 = filter (\<lambda>x. endswith x ''.tif'') names"
proof -
  from l obtain k where k: "resolve (fs w) (cwd w) dirname = Inr k"
    "node_at (fs w) k = Some Dir" "names = children (fs w) k"
    by (auto simp: os_listdir_Inr)
  let ?k0 = "cwd w @ [''output'']"
  from create_directory_Inr [OF c] have
    w1: "if node_at (fs w) ?k0 = None then w1 = w\<lparr>fs := AList.update ?k0 Dir (fs w)\<rparr> else w1 = w"
    by (simp add: resolve_literal)
  show ?thesis
  proof (cases "node_at (fs w) ?k0 = None")
    case False
    with w1 k show ?thesis by (simp add: os_listdir_Inr)
  next
    case True
    with w1 have fs1: "fs w1 = fs w @ [(?k0, Dir)]" and cwd1: "cwd w1 = cwd w"
      by (simp_all add: update_absent node_at_def)
    from True w1 have fs1': "fs w1 = AList.update ?k0 Dir (fs w)" by simp
    from True k(2) have ne: "k \<noteq> ?k0" by auto
    from resolve_add_dir [OF True k(1)] have "resolve (fs w1) (cwd w1) dirname = Inr k"
      by (simp add: fs1' cwd1)
    moreover from k(2) ne have "node_at (fs w1) k = Some Dir"
      by (simp add: fs1' node_at_update)
    moreover have "filter (\<lambda>x. endswith x ''.tif'') (children (fs w1) k)
        = filter (\<lambda>x. endswith x ''.tif'') (children (fs w) k)"
      by (simp add: fs1 children_def endswith_def)
    ultimately show ?thesis using k(3) by (simp add: os_listdir_Inr)
  qed
qed

lemma os_remove_result:
  assumes "os_remove p w = (r, w')"
  shows "events w' = events w \<and> cwd w' = cwd w \<and>
         (case r of
            Inr _ \<Rightarrow> \<exists>k c. resolve (fs w) (cwd w) p = Inr k \<and> node_at (fs w) k = Some (File c) \<and>
                     fs w' = AList.delete k (fs w)
          | Inl e \<Rightarrow> w' = w)"
  using assms
  by (auto simp: os_remove_def split: sum.splits option.splits node.splits)

lemma runs_of_map_Run [simp]: "runs_of (map Run cs) = cs"
  by (induction cs) simp_all

lemma tif_files_perm:
  assumes "mset names' = mset names"
  shows "tif_files names' = tif_files names"
proof -
  from assms have "mset (filter (\<lambda>x. endswith x ''.tif'') names')
      = mset (filter (\<lambda>x. endswith x ''.tif'') names)"
    by (metis mset_filter)
  then show ?thesis
    unfolding tif_files_def by (intro properties_for_sort) simp_all
qed

lemma create_djvu_unfold:
  assumes "create_directory ''output'' w = (Inr ''output'', w1)"
    and "os_listdir dirname w1 = (Inr names1, w1)"
  shows "create_djvu E dirname w =
           bind_io (djvu_loop E dirname ''tmp.djvu'' (os_path_join ''output'' (dirname @ ''.djvu''))
                      (enumerate1 (tif_files names1)))
             (\<lambda>_. os_remove ''tmp.djvu'') w1"
  using assms by (simp add: create_djvu_def bind_io_apply Let_def)

lemma create_djvu_runs:
  assumes l: "os_listdir dirname w = (Inr names, w)" and c: "create_djvu E dirname w = (r, w')"
  shows "(\<exists>n. runs_of (events w') =
            runs_of (events w) @ take n (spec_commands dirname (tif_files names))) \<and>
         (r = Inr () \<longrightarrow>
            runs_of (events w') = runs_of (events w) @ spec_commands dirname (tif_files names) \<and>
            node_at (fs w') (cwd w' @ [''tmp.djvu'']) = None \<and> cwd w' = cwd w)"
proof -
  obtain rc w1 where rc: "create_directory ''output'' w = (rc, w1)"
    by (cases "create_directory ''output'' w")
  note F1 = create_directory_frame [OF rc]
  show ?thesis
  proof (cases rc)
    case (Inl e)
    with c rc have "r = Inl e" "w' = w1" by (simp_all add: create_djvu_def bind_io_apply)
    with F1 have "runs_of (events w') =
        runs_of (events w) @ take 0 (spec_commands dirname (tif_files names))" by simp
    with \<open>r = Inl e\<close> show ?thesis by blast
  next
    case (Inr d)
    with rc create_directory_Inr [of "''output''" w d w1] have d: "d = ''output''" by simp
    from listdir_after_create_output [OF rc [unfolded Inr] l] obtain names1 where
      l1: "os_listdir dirname w1 = (Inr names1, w1)"
      and t: "tif_files names1 = tif_files names"
      by (auto simp: tif_files_def)
    note U = create_djvu_unfold [OF rc [unfolded Inr d] l1, of E, unfolded t]
    let ?book = "os_path_join ''output'' (dirname @ ''.djvu'')"
    obtain r2 w2 where r2:
      "djvu_loop E dirname ''tmp.djvu'' ?book (enumerate1 (tif_files names)) w1 = (r2, w2)"
      by (cases "djvu_loop E dirname ''tmp.djvu'' ?book (enumerate1 (tif_files names)) w1")
    from djvu_loop_runs [OF r2] obtain n where
      c2: "cwd w2 = cwd w1"
      and n: "events w2 = events w1 @ map Run (take n (spec_commands dirname (tif_files names)))"
      and full: "r2 = Inr () \<longrightarrow>
          events w2 = events w1 @ map Run (spec_commands dirname (tif_files names))"
      unfolding enumerate1_commands by blast
    from n F1 have runs2: "runs_of (events w2) =
        runs_of (events w) @ take n (spec_commands dirname (tif_files names))"
      by simp
    show ?thesis
    proof (cases r2)
      case (Inl e)
      with c U r2 have "r = Inl e" "w' = w2"
        by (simp_all add: bind_io_apply)
      with runs2 show ?thesis by blast
    next
      case (Inr u)
      with c U r2 have rm: "os_remove ''tmp.djvu'' w2 = (r, w')"
        by (simp add: bind_io_apply)
      note R = os_remove_result [OF rm]
      from R runs2 have a: "runs_of (events w') =
          runs_of (events w) @ take n (spec_commands dirname (tif_files names))" by simp
      from Inr full F1 R have b: "runs_of (events w') =
          runs_of (events w) @ spec_commands dirname (tif_files names)" by simp
      have "node_at (fs w') (cwd w' @ [''tmp.djvu'']) = None \<and> cwd w' = cwd w" if "r = Inr ()"
        using R that c2 F1 by (auto simp: resolve_literal node_at_delete)
      with a b show ?thesis by blast
    qed
  qed
qed

text \<open>
  C4. Let \<open>names\<close> be the listing of the workspace. The pages \<^verbatim>\<open>create_djvu\<close> works on
  are exactly the names ending in \<^verbatim>\<open>.tif\<close>, sorted, whatever the order of the listing.
  The external commands it runs are a prefix of the specification's commands for these
  pages, and all of them when it returns normally: encoder then merger for each page in
  sorted order, the merger in create mode for the first page only (once if there is a
  page) and in insert mode for every later page. When it returns normally the temporary
  file \<^verbatim>\<open>tmp.djvu\<close> is gone.
\<close>

theorem create_djvu_pages_in_sorted_order:
  assumes "os_listdir dirname w = (Inr names, w)" and "create_djvu E dirname w = (r, w')"
  shows "sorted (tif_files names) \<and>
         mset (tif_files names) = mset (filter (\<lambda>x. endswith x ''.tif'') names) \<and>
         (\<forall>names'. mset names' = mset names \<longrightarrow> tif_files names' = tif_files names) \<and>
         (\<exists>n. runs_of (events w') =
            runs_of (events w) @ take n (spec_commands dirname (tif_files names))) \<and>
         (r = Inr () \<longrightarrow>
            runs_of (events w') = runs_of (events w) @ spec_commands dirname (tif_files names) \<and>
            node_at (fs w') (cwd w' @ [''tmp.djvu'']) = None \<and> cwd w' = cwd w) \<and>
         length (filter is_create (spec_commands dirname (tif_files names))) =
           (if tif_files names = [] then 0 else 1) \<and>
         length (filter is_insert (spec_commands dirname (tif_files names))) =
           length (tif_files names) - 1"
proof -
  have "sorted (tif_files names)"
    "mset (tif_files names) = mset (filter (\<lambda>x. endswith x ''.tif'') names)"
    by (simp_all add: tif_files_def)
  with create_djvu_runs [OF assms] tif_files_perm spec_commands_counts show ?thesis
    by blast
qed

lemmas djvu_defs = create_djvu_def tif_files_def endswith_def enumerate1_def cjb2_cmd_def
  djvm_cmd_def example_tools_def less_eq_char_def less_char_def

lemma example_listing:
  "os_listdir ''a1'' pages_world =
     (Inr [''p2.tif'', ''p10.tif'', ''notes.txt'', ''p1.tif''], pages_world)"
  by (simp add: os_defs pages_world_def)

lemma example_assembly:
  "create_djvu example_env ''a1'' pages_world = (Inr (), assembled_world)"
  by (simp add: djvu_defs os_defs pages_world_def assembled_world_def example_env_def upt_rec
      Let_def)

text \<open>
  C4 on a workspace listed out of order that also holds a file that is no page.
\<close>

theorem create_djvu_pages_in_sorted_order_witness:
  "os_listdir ''a1'' pages_world =
     (Inr [''p2.tif'', ''p10.tif'', ''notes.txt'', ''p1.tif''], pages_world) \<and>
   create_djvu example_env ''a1'' pages_world = (Inr (), assembled_world) \<and>
   tif_files [''p2.tif'', ''p10.tif'', ''notes.txt'', ''p1.tif''] =
     [''p1.tif'', ''p10.tif'', ''p2.tif''] \<and>
   runs_of (events assembled_world) =
     runs_of (events pages_world) @ spec_commands ''a1'' [''p1.tif'', ''p10.tif'', ''p2.tif''] \<and>
   node_at (fs assembled_world) (cwd assembled_world @ [''tmp.djvu'']) = None \<and>
   length (filter is_create (spec_commands ''a1'' [''p1.tif'', ''p10.tif'', ''p2.tif''])) = 1"
proof -
  have t: "tif_files [''p2.tif'', ''p10.tif'', ''notes.txt'', ''p1.tif''] =
     [''p1.tif'', ''p10.tif'', ''p2.tif'']"
    by (simp add: djvu_defs)
  from create_djvu_pages_in_sorted_order [OF example_listing example_assembly]
  show ?thesis
    using example_listing example_assembly by (auto simp: t)
qed

text \<open>
  C9. When the workspace holds no name ending in \<^verbatim>\<open>.tif\<close>, \<^verbatim>\<open>create_djvu\<close> makes sure the
  directory \<^verbatim>\<open>output\<close> exists, runs no external command and changes nothing else, and
  then removes \<^verbatim>\<open>tmp.djvu\<close>: with no such file this raises FileNotFoundError, which ends
  the whole run when the article's download had returned normally.
\<close>

theorem create_djvu_no_pages:
  assumes l: "os_listdir dirname w = (Inr names, w)" and t: "tif_files names = []"
    and wd: "node_at (fs w) (cwd w) = Some Dir"
  shows "create_djvu E dirname w =
           (case node_at (fs w) (cwd w @ [''tmp.djvu'']) of
              None \<Rightarrow> (Inl FileNotFoundError, w\<lparr>fs := add_output w\<rparr>)
            | Some Dir \<Rightarrow> (Inl IsADirectoryError, w\<lparr>fs := add_output w\<rparr>)
            | Some (File c) \<Rightarrow>
                (Inr (), w\<lparr>fs := AList.delete (cwd w @ [''tmp.djvu'']) (add_output w)\<rparr>)) \<and>
         node_at (add_output w) (cwd w @ [''output'']) \<noteq> None \<and>
         (download_files_of_article E dirname w0 = (Inr (), w) \<and>
          node_at (fs w) (cwd w @ [''tmp.djvu'']) = None \<longrightarrow>
            main_loop E error_log (dirname # ids) w0 =
              (Inl FileNotFoundError, w\<lparr>fs := add_output w\<rparr>))"
proof -
  let ?w1 = "w\<lparr>fs := add_output w\<rparr>"
  have c: "create_directory ''output'' w = (Inr ''output'', ?w1)"
    using wd
    by (auto simp: create_directory_def os_path_exists_def os_mkdir_def resolve_literal
        bind_io_apply add_output_def)
  from listdir_after_create_output [OF c l] t obtain names1 where
    l1: "os_listdir dirname ?w1 = (Inr names1, ?w1)" and t1: "tif_files names1 = []"
    by (auto simp: tif_files_def)
  have tmp: "node_at (add_output w) (cwd w @ [''tmp.djvu'']) = node_at (fs w) (cwd w @ [''tmp.djvu''])"
    by (simp add: add_output_def node_at_update)
  have res: "create_djvu E dirname w =
           (case node_at (fs w) (cwd w @ [''tmp.djvu'']) of
              None \<Rightarrow> (Inl FileNotFoundError, w\<lparr>fs := add_output w\<rparr>)
            | Some Dir \<Rightarrow> (Inl IsADirectoryError, w\<lparr>fs := add_output w\<rparr>)
            | Some (File c) \<Rightarrow>
                (Inr (), w\<lparr>fs := AList.delete (cwd w @ [''tmp.djvu'']) (add_output w)\<rparr>))"
    unfolding create_djvu_unfold [OF c l1]
    by (simp add: t1 enumerate1_def bind_io_apply os_remove_def resolve_literal tmp
        split: option.splits node.splits)
  have out: "node_at (add_output w) (cwd w @ [''output'']) \<noteq> None"
    by (simp add: add_output_def node_at_update)
  have "main_loop E error_log (dirname # ids) w0 = (Inl FileNotFoundError, ?w1)"
    if "download_files_of_article E dirname w0 = (Inr (), w)"
      and "node_at (fs w) (cwd w @ [''tmp.djvu'']) = None"
    using that res by (simp add: bind_io_apply)
  with res out show ?thesis by blast
qed

lemma example_empty_download:
  "download_files_of_article empty_env ''a2'' no_pages_start = (Inr (), no_pages_world)"
  by (simp add: download_files_of_article_def download_images_def os_defs extract_defs
      generate_url_def empty_env_def example_env_def example_server_def no_pages_start_def
      no_pages_world_def py_iter_def)

text \<open>
  C9 on an article whose metadata has no tracked record and whose workspace holds only
  a \<^verbatim>\<open>.tiff\<close> file: the run ends there and the next identifier is not processed.
\<close>

theorem create_djvu_no_pages_witness:
  "os_listdir ''a2'' no_pages_world = (Inr [''scan.tiff''], no_pages_world) \<and>
   tif_files [''scan.tiff''] = [] \<and>
   node_at (fs no_pages_world) (cwd no_pages_world) = Some Dir \<and>
   download_files_of_article empty_env ''a2'' no_pages_start = (Inr (), no_pages_world) \<and>
   node_at (fs no_pages_world) (cwd no_pages_world @ [''tmp.djvu'']) = None \<and>
   create_djvu empty_env ''a2'' no_pages_world =
     (Inl FileNotFoundError, no_pages_world\<lparr>fs := add_output no_pages_world\<rparr>) \<and>
   main_loop empty_env ''20180101-120000.log'' [''a2'', ''a3''] no_pages_start =
     (Inl FileNotFoundError, no_pages_world\<lparr>fs := add_output no_pages_world\<rparr>) \<and>
   add_output no_pages_world = fs no_pages_world @ [([''home'', ''output''], Dir)]"
proof -
  have h1: "os_listdir ''a2'' no_pages_world = (Inr [''scan.tiff''], no_pages_world)"
    by (simp add: os_defs no_pages_world_def no_pages_start_def)
  have h2: "tif_files [''scan.tiff''] = []"
    by (simp add: djvu_defs)
  have h3: "node_at (fs no_pages_world) (cwd no_pages_world) = Some Dir"
    by (simp add: fs_defs no_pages_world_def no_pages_start_def)
  have h4: "node_at (fs no_pages_world) (cwd no_pages_world @ [''tmp.djvu'']) = None"
    by (simp add: fs_defs no_pages_world_def no_pages_start_def)
  have h5: "add_output no_pages_world = fs no_pages_world @ [([''home'', ''output''], Dir)]"
    by (simp add: add_output_def fs_defs no_pages_world_def no_pages_start_def)
  from create_djvu_no_pages [OF h1 h2 h3, of empty_env no_pages_start
      "''20180101-120000.log''" "[''a3'']"]
  show ?thesis
    using h1 h2 h3 h4 h5 example_empty_download by simp
qed

subsection \<open>The driver\<close>

lemma download_files_of_article_apply:
  "download_files_of_article E i w =
     (case requests_get E (generate_url i) (Some (config_username E, config_password E)) of
        Inl e \<Rightarrow> (Inl e, fetched E i w)
      | Inr text \<Rightarrow>
          (case get_image_paths (json_loads E) (py_str E) text of
             Inl e \<Rightarrow> (Inl e, fetched E i w)
           | Inr imgs \<Rightarrow> download_images E imgs i (fetched E i w)))"
  by (simp add: download_files_of_article_def bind_io_apply http_get_apply fetched_def
      split: sum.splits)

lemma main_loop_append:
  "main_loop E error_log (pre @ ids) w =
     bind_io (main_loop E error_log pre) (\<lambda>_. main_loop E error_log ids) w"
proof (induction pre arbitrary: w)
  case Nil
  show ?case by (simp add: bind_io_apply)
next
  case (Cons i pre)
  show ?case
    by (simp add: bind_io_apply Cons.IH split: prod.splits sum.splits)
qed

lemma comprehension_if_error_at:
  assumes "\<And>x. x \<in> set pre \<Longrightarrow> \<exists>b. p x = Inr b" and "p bad = Inl e"
  shows "comprehension_if p (pre @ bad # post) = Inl e"
  using assms(1)
proof (induction pre)
  case Nil
  show ?case by (simp add: assms(2))
next
  case (Cons x pre)
  from Cons.prems [of x] obtain b where "p x = Inr b" by auto
  moreover have "comprehension_if p (pre @ bad # post) = Inl e"
    by (rule Cons.IH) (simp add: Cons.prems)
  ultimately show ?case by simp
qed

lemma comprehension_error_at:
  assumes "\<And>x. x \<in> set pre \<Longrightarrow> \<exists>y. f x = Inr y" and "f bad = Inl e"
  shows "comprehension f (pre @ bad # post) = Inl e"
  using assms(1)
proof (induction pre)
  case Nil
  show ?case by (simp add: assms(2))
next
  case (Cons x pre)
  from Cons.prems [of x] obtain y where "f x = Inr y" by auto
  moreover have "comprehension f (pre @ bad # post) = Inl e"
    by (rule Cons.IH) (simp add: Cons.prems)
  ultimately show ?case by simp
qed

lemma is_resource_top: "record_top r \<Longrightarrow> is_resource r = Inr (tracked r)"
  by (auto simp: record_top_def is_resource_def tracked_def getitem_Some)

lemma original_file_top:
  assumes "record_top r" and "tracked r"
  shows "original_file r = Inr (JArr (entries_of r))"
proof -
  from assms obtain es where es: "file_list r = Some (JArr es)"
    by (auto simp: record_top_def split: option.splits json.splits)
  then have "original_file r = Inr (JArr es)"
    by (auto simp: original_file_def file_list_def getitem_Some split: option.splits)
  with es show ?thesis by (simp add: entries_of_def)
qed

lemma comprehension_error_by:
  assumes "\<And>x. x \<in> set pre \<Longrightarrow> f x = Inl e \<or> (\<exists>y. f x = Inr y)" and "f bad = Inl e"
  shows "comprehension f (pre @ bad # post) = Inl e"
  using assms(1)
proof (induction pre)
  case Nil
  show ?case by (simp add: assms(2))
next
  case (Cons x pre)
  have rest: "comprehension f (pre @ bad # post) = Inl e"
    by (rule Cons.IH) (simp add: Cons.prems)
  from Cons.prems [of x] show ?case
    by (auto simp: rest)
qed

lemma extraction_index_error:
  assumes pre: "list_all record_shape pre"
    and r: "record_shape r" "tracked r" "tiff_entries r = []"
    and post: "list_all record_top post"
  shows "image_paths_of render (JArr (pre @ r # post)) = Inl IndexError"
proof -
  let ?F = "\<lambda>r. JArr (entries_of r)"
  have kind: "is_resource x = Inr (tracked x)" if "x \<in> set (pre @ r # post)" for x
    using that pre r(1) post is_resource_shape is_resource_top by (auto simp: list_all_iff)
  have res: "comprehension_if is_resource (pre @ r # post) =
      Inr (filter tracked pre @ r # filter tracked post)"
    using comprehension_if_total [of "pre @ r # post" is_resource tracked] kind r(2) by simp
  have "original_file x = Inr (?F x)"
    if "x \<in> set (filter tracked pre @ r # filter tracked post)" for x
    using that pre r(1,2) post original_file_shape original_file_top
    by (auto simp: list_all_iff)
  then have files: "comprehension original_file (filter tracked pre @ r # filter tracked post) =
      Inr (map ?F (filter tracked pre) @ ?F r # map ?F (filter tracked post))"
    using comprehension_total [of "filter tracked pre @ r # filter tracked post"
        original_file ?F] by simp
  have each: "page_of_file render x = Inl IndexError \<or> (\<exists>p. page_of_file render x = Inr p)"
    if "x \<in> set (map ?F (filter tracked pre))" for x
  proof -
    from that obtain q where q: "q \<in> set pre" "tracked q" "x = ?F q" by auto
    with pre have e: "list_all entry_shape (entries_of q)"
      using original_file_shape by (auto simp: list_all_iff)
    show ?thesis
    proof (cases "filter tiff_entry (entries_of q)")
      case Nil
      with page_of_file_no_tiff [OF e] q(3) show ?thesis by simp
    next
      case (Cons a as)
      with page_of_file_tiff [OF e Cons, of render] q(3) show ?thesis by blast
    qed
  qed
  from r have "list_all entry_shape (entries_of r)"
    using original_file_shape by blast
  with r(3) have "page_of_file render (?F r) = Inl IndexError"
    by (intro page_of_file_no_tiff) (simp_all add: tiff_entries_def)
  with each have "comprehension (page_of_file render)
      (map ?F (filter tracked pre) @ ?F r # map ?F (filter tracked post)) = Inl IndexError"
    by (intro comprehension_error_by)
  then show ?thesis
    by (simp add: image_paths_of_def res files paths_loop_comprehension)
qed

text \<open>
  C1, as the code has it. Let the metadata of an identifier be fetched and parsed into a
  list of records that holds a record of the tracked kind with no \<^verbatim>\<open>image/tiff\<close> entry.
  Let that record and every record before it be of the known shape, and let the
  entity-kind lookup and, on tracked records, the file-list lookup succeed on every later
  record. Then extraction raises IndexError. When the error log can be opened for
  appending, the driver goes on with the remaining identifiers from a world that differs
  from the one before only by the metadata request and by the line \<^verbatim>\<open><identifier>\n\<close>
  appended to the log: nothing downloaded, no command run, no output document.
\<close>

theorem malformed_article_logged_and_skipped:
  assumes fetch: "requests_get E (generate_url internal_id)
                    (Some (config_username E, config_password E)) = Inr text"
    and parse: "json_loads E text = Inr (JArr (pre @ r # post))"
    and pre: "list_all record_shape pre"
    and r: "record_shape r" "tracked r" "tiff_entries r = []"
    and post: "list_all record_top post"
    and log: "locate (fs w) (cwd w) error_log = Inr kl" "\<not> trailing error_log"
      "node_at (fs w) kl \<noteq> Some Dir" "node_at (fs w) (butlast kl) = Some Dir"
  shows "get_image_paths (json_loads E) (py_str E) text = Inl IndexError \<and>
         main_loop E error_log (internal_id # ids) w =
           main_loop E error_log ids
             (w\<lparr>events := events w @
                  [Get (generate_url internal_id) (Some (config_username E, config_password E))],
                fs := AList.update kl
                  (File ((case node_at (fs w) kl of Some (File old) \<Rightarrow> old | _ \<Rightarrow> [])
                         @ internal_id @ [CHR 0x0A])) (fs w)\<rparr>)"
proof -
  have x: "get_image_paths (json_loads E) (py_str E) text = Inl IndexError"
    by (simp add: get_image_paths_def parse extraction_index_error [OF pre r post])
  then have d: "download_files_of_article E internal_id w = (Inl IndexError, fetched E internal_id w)"
    by (simp add: download_files_of_article_apply fetch)
  from log(3) have k: "kl \<noteq> []" by auto
  have l: "log_weird_article internal_id error_log (fetched E internal_id w) =
      (Inr (), w\<lparr>events := events w @
                  [Get (generate_url internal_id) (Some (config_username E, config_password E))],
                fs := AList.update kl
                  (File ((case node_at (fs w) kl of Some (File old) \<Rightarrow> old | _ \<Rightarrow> [])
                         @ internal_id @ [CHR 0x0A])) (fs w)\<rparr>)"
    using log
    by (auto simp: log_weird_article_def open_and_write_def fetched_def
        split: option.splits node.splits)
  from d l have "main_loop E error_log (internal_id # ids) w =
           main_loop E error_log ids
             (w\<lparr>events := events w @
                  [Get (generate_url internal_id) (Some (config_username E, config_password E))],
                fs := AList.update kl
                  (File ((case node_at (fs w) kl of Some (File old) \<Rightarrow> old | _ \<Rightarrow> [])
                         @ internal_id @ [CHR 0x0A])) (fs w)\<rparr>)"
    by (simp add: bind_io_apply)
  with x show ?thesis by simp
qed

text \<open>
  C2. After any identifiers processed normally: an exception other than IndexError
  raised by \<^verbatim>\<open>download_files_of_article\<close>, and any exception raised by \<^verbatim>\<open>create_djvu\<close>, is
  the result of the whole run, and the world is the one at the raise, so no later
  identifier is processed. An IndexError raised anywhere in
  \<^verbatim>\<open>download_files_of_article\<close> makes the driver log the identifier and go on; an
  exception of the metadata request is raised by \<^verbatim>\<open>download_files_of_article\<close> as it
  is, so an IndexError from there is treated so too.
\<close>

theorem only_index_error_recovered:
  assumes "main_loop E error_log pre w0 = (Inr (), w)"
  shows "(download_files_of_article E i w = (Inl e, w1) \<and> e \<noteq> IndexError \<longrightarrow>
            main_loop E error_log (pre @ i # ids) w0 = (Inl e, w1)) \<and>
         (download_files_of_article E i w = (Inr (), w1) \<and> create_djvu E i w1 = (Inl e, w2) \<longrightarrow>
            main_loop E error_log (pre @ i # ids) w0 = (Inl e, w2)) \<and>
         (download_files_of_article E i w = (Inl IndexError, w1) \<longrightarrow>
            main_loop E error_log (pre @ i # ids) w0 =
              bind_io (log_weird_article i error_log) (\<lambda>_. main_loop E error_log ids) w1) \<and>
         (requests_get E (generate_url i) (Some (config_username E, config_password E)) = Inl e
            \<longrightarrow> download_files_of_article E i w =
              (Inl e, w\<lparr>events := events w @
                 [Get (generate_url i) (Some (config_username E, config_password E))]\<rparr>))"
proof -
  have a: "main_loop E error_log (pre @ i # ids) w0 = main_loop E error_log (i # ids) w"
    using assms by (simp add: main_loop_append bind_io_apply)
  show ?thesis
    unfolding a
    by (auto simp: bind_io_apply download_files_of_article_apply fetched_def)
qed

lemmas env_defs = example_env_def malformed_env_def failing_env_def empty_env_def
  example_server_def

text \<open>
  C1 as stated fails: the first record is of the tracked kind and has no \<^verbatim>\<open>image/tiff\<close>
  entry, but the second record has no entity kind, and the kinds of all records are
  looked up first. Extraction raises KeyError, nothing is logged, and the run ends with
  the next identifier unprocessed.
\<close>

theorem malformed_article_not_logged:
  "list_ex (\<lambda>r. tracked r \<and> tiff_entries r = []) unkinded_records \<and>
   get_image_paths (json_loads unkinded_env) (py_str unkinded_env) ''[metadata]''
     = Inl (KeyError ''entityType'') \<and>
   main_loop unkinded_env ''20180101-120000.log'' [''a2'', ''a3''] home_world =
     (Inl (KeyError ''entityType''),
      home_world\<lparr>events := [Get (generate_url ''a2'') (Some (''user'', ''secret''))]\<rparr>)"
  by (simp add: shape_defs extract_defs unkinded_records_def unkinded_env_def env_defs
      download_files_of_article_apply fetched_def home_world_def)

text \<open>
  C1 as amended, on a response whose second tracked record has only a PDF entry.
\<close>

theorem malformed_article_logged_and_skipped_witness:
  "requests_get malformed_env (generate_url ''a2'')
      (Some (config_username malformed_env, config_password malformed_env)) = Inr ''[metadata]'' \<and>
   json_loads malformed_env ''[metadata]'' =
     Inr (JArr ([example_record ''Resource'' [example_entry ''image/tiff'' ''p1.tif'']]
                @ example_record ''Resource'' [example_entry ''application/pdf'' ''p2.pdf'']
                # [])) \<and>
   list_all record_shape [example_record ''Resource'' [example_entry ''image/tiff'' ''p1.tif'']] \<and>
   record_shape (example_record ''Resource'' [example_entry ''application/pdf'' ''p2.pdf'']) \<and>
   tracked (example_record ''Resource'' [example_entry ''application/pdf'' ''p2.pdf'']) \<and>
   tiff_entries (example_record ''Resource'' [example_entry ''application/pdf'' ''p2.pdf'']) = [] \<and>
   list_all record_top [] \<and>
   locate (fs home_world) (cwd home_world) ''20180101-120000.log''
     = Inr [''home'', ''20180101-120000.log''] \<and>
   \<not> trailing ''20180101-120000.log'' \<and>
   node_at (fs home_world) [''home'', ''20180101-120000.log''] \<noteq> Some Dir \<and>
   node_at (fs home_world) (butlast [''home'', ''20180101-120000.log'']) = Some Dir \<and>
   get_image_paths (json_loads malformed_env) (py_str malformed_env) ''[metadata]''
     = Inl IndexError \<and>
   main_loop malformed_env ''20180101-120000.log'' [''a2''] home_world
     = (Inr (), logged_world ''a2'')"
proof -
  let ?pre = "[example_record ''Resource'' [example_entry ''image/tiff'' ''p1.tif'']]"
  let ?r = "example_record ''Resource'' [example_entry ''application/pdf'' ''p2.pdf'']"
  have h1: "requests_get malformed_env (generate_url ''a2'')
      (Some (config_username malformed_env, config_password malformed_env)) = Inr ''[metadata]''"
    by (simp add: env_defs)
  have h2: "json_loads malformed_env ''[metadata]'' = Inr (JArr (?pre @ ?r # []))"
    by (simp add: env_defs loads_as_def malformed_records_def)
  have h3: "list_all record_shape ?pre"
    by (simp add: shape_defs)
  have h4: "record_shape ?r" "tracked ?r" "tiff_entries ?r = []"
    by (simp_all add: shape_defs)
  have h5: "list_all record_top []"
    by simp
  have h6: "locate (fs home_world) (cwd home_world) ''20180101-120000.log''
     = Inr [''home'', ''20180101-120000.log'']"
    by (simp add: fs_defs home_world_def)
  have h7: "\<not> trailing ''20180101-120000.log''"
    by (simp add: fs_defs)
  have h8: "node_at (fs home_world) [''home'', ''20180101-120000.log''] \<noteq> Some Dir"
    by (simp add: fs_defs home_world_def)
  have h9: "node_at (fs home_world) (butlast [''home'', ''20180101-120000.log'']) = Some Dir"
    by (simp add: fs_defs home_world_def)
  from malformed_article_logged_and_skipped [OF h1 h2 h3 h4 h5 h6 h7 h8 h9, of "[]"]
  show ?thesis
    using h1 h2 h3 h4 h5 h6 h7 h8 h9
    by (simp add: home_world_def logged_world_def fs_defs generate_url_def env_defs)
qed

lemma example_empty_assembly:
  "create_djvu empty_env ''a2'' no_pages_world =
     (Inl FileNotFoundError, no_pages_world\<lparr>fs := add_output no_pages_world\<rparr>)"
  by (simp add: djvu_defs os_defs no_pages_world_def no_pages_start_def add_output_def Let_def)

lemma example_failed_fetch:
  "download_files_of_article (failing_env e) ''a2'' home_world =
     (Inl e, home_world\<lparr>events := [Get (generate_url ''a2'') (Some (''user'', ''secret''))]\<rparr>)"
  by (simp add: download_files_of_article_apply fetched_def env_defs home_world_def)

text \<open>
  C2 three times: a failed request ends the run, a failed assembly ends the run, and
  an IndexError raised by the metadata request is logged as a malformed article.
\<close>

theorem only_index_error_recovered_witness:
  "main_loop (failing_env RequestException) ''20180101-120000.log'' [''a2'', ''a3''] home_world =
     (Inl RequestException,
      home_world\<lparr>events := [Get (generate_url ''a2'') (Some (''user'', ''secret''))]\<rparr>) \<and>
   main_loop empty_env ''20180101-120000.log'' [''a2'', ''a3''] no_pages_start =
     (Inl FileNotFoundError, no_pages_world\<lparr>fs := add_output no_pages_world\<rparr>) \<and>
   main_loop (failing_env IndexError) ''20180101-120000.log'' [''a2''] home_world =
     (Inr (), logged_world ''a2'')"
proof -
  have pre: "main_loop E ''20180101-120000.log'' [] w = (Inr (), w)" for E w
    by simp
  note T = only_index_error_recovered
  from T [OF pre [of "failing_env RequestException" home_world],
      where i = "''a2''" and e = RequestException and ids = "[''a3'']"]
    example_failed_fetch [of RequestException]
  have a: "main_loop (failing_env RequestException) ''20180101-120000.log'' [''a2'', ''a3''] home_world =
     (Inl RequestException,
      home_world\<lparr>events := [Get (generate_url ''a2'') (Some (''user'', ''secret''))]\<rparr>)"
    by simp
  from T [OF pre [of empty_env no_pages_start],
      where i = "''a2''" and e = FileNotFoundError and ids = "[''a3'']" and ?w1.0 = no_pages_world
        and ?w2.0 = "no_pages_world\<lparr>fs := add_output no_pages_world\<rparr>"]
    example_empty_download example_empty_assembly
  have b: "main_loop empty_env ''20180101-120000.log'' [''a2'', ''a3''] no_pages_start =
     (Inl FileNotFoundError, no_pages_world\<lparr>fs := add_output no_pages_world\<rparr>)"
    by simp
  from T [OF pre [of "failing_env IndexError" home_world],
      where i = "''a2''" and ids = "[]"
        and ?w1.0 = "home_world\<lparr>events := [Get (generate_url ''a2'') (Some (''user'', ''secret''))]\<rparr>"]
    example_failed_fetch [of IndexError]
  have c: "main_loop (failing_env IndexError) ''20180101-120000.log'' [''a2''] home_world =
     (Inr (), logged_world ''a2'')"
    by (simp add: log_weird_article_def os_defs home_world_def logged_world_def generate_url_def)
  from a b c show ?thesis by simp
qed

subsection \<open>The start-up check\<close>

text \<open>
  C8. When \<^verbatim>\<open>djvm\<close> or \<^verbatim>\<open>cjb2\<close> is not found on the search path, the program raises
  the exception with its message and leaves the world as it was: the command line is not
  parsed, the list is not read, nothing is fetched, run or written.
\<close>

theorem missing_tools_abort_at_startup:
  assumes "shutil_which E ''djvm'' = None \<or> shutil_which E ''cjb2'' = None"
  shows "program E argv w = (Inl (Exception ''Djvu utils djvm and cjb2 not found.''), w)"
  using assms by (auto simp: program_def can_djvu_def)

text \<open>
  C8 with \<^verbatim>\<open>djvm\<close> installed and \<^verbatim>\<open>cjb2\<close> missing.
\<close>

theorem missing_tools_abort_at_startup_witness:
  "(shutil_which (example_env\<lparr>shutil_which := (\<lambda>n. if n = ''djvm'' then Some ''/usr/bin/djvm'' else None)\<rparr>) ''djvm'' = None \<or>
    shutil_which (example_env\<lparr>shutil_which := (\<lambda>n. if n = ''djvm'' then Some ''/usr/bin/djvm'' else None)\<rparr>) ''cjb2'' = None) \<and>
   program (example_env\<lparr>shutil_which := (\<lambda>n. if n = ''djvm'' then Some ''/usr/bin/djvm'' else None)\<rparr>)
     [''--list'', ''ids.txt''] ids_world
     = (Inl (Exception ''Djvu utils djvm and cjb2 not found.''), ids_world)"
proof -
  let ?E = "example_env\<lparr>shutil_which := (\<lambda>n. if n = ''djvm'' then Some ''/usr/bin/djvm'' else None)\<rparr>"
  have h: "shutil_which ?E ''djvm'' = None \<or> shutil_which ?E ''cjb2'' = None"
    by simp
  from missing_tools_abort_at_startup [OF h] h show ?thesis by blast
qed

subsection \<open>Records that lack a key\<close>

lemma entries_missing_key_error:
  "entries_missing_key es = Some k \<Longrightarrow>
     comprehension_if is_tiff es = Inl (KeyError k) \<and> (k = ''value'' \<or> k = ''mimeType'')"
proof (induction es)
  case Nil
  then show ?case by simp
next
  case (Cons e es)
  show ?case
  proof (cases "entry_field ''mimeType'' e")
    case (Some m)
    then have "is_tiff e = Inr (m = JStr ''image/tiff'')"
      by (simp add: is_tiff_def value_field_Some)
    moreover from Some Cons have "comprehension_if is_tiff es = Inl (KeyError k) \<and>
        (k = ''value'' \<or> k = ''mimeType'')" by simp
    ultimately show ?thesis by simp
  next
    case None
    with Cons.prems have "entry_missing_key e = Some k" by simp
    then have "is_tiff e = Inl (KeyError k) \<and> (k = ''value'' \<or> k = ''mimeType'')"
      by (auto simp: entry_missing_key_def is_tiff_def value_field_def getitem_def
          split: json.splits option.splits if_splits)
    then show ?thesis by simp
  qed
qed

lemma missing_key_extraction:
  assumes pre: "list_all record_top pre" and post: "list_all record_top post"
    and bad: "missing_key bad = Some k"
    and ent: "k = ''value'' \<or> k = ''mimeType'' \<longrightarrow> list_all complete pre"
  shows "image_paths_of render (JArr (pre @ bad # post)) = Inl (KeyError k) \<and>
         k \<in> {''entityType'', ''properties'', ''resource.originalFile'', ''value'', ''mimeType''}"
proof -
  from bad obtain kvs where kvs: "bad = JObj kvs"
    by (auto simp: missing_key_def split: json.splits)
  have pre_res: "x \<in> set pre \<Longrightarrow> \<exists>b. is_resource x = Inr b" for x
    using pre is_resource_top by (auto simp: list_all_iff)
  show ?thesis
  proof (cases "map_of kvs ''entityType''")
    case None
    with bad kvs have k: "k = ''entityType''" by (simp add: missing_key_def)
    from None kvs have "is_resource bad = Inl (KeyError ''entityType'')"
      by (simp add: is_resource_def getitem_def)
    with pre_res have "comprehension_if is_resource (pre @ bad # post) = Inl (KeyError ''entityType'')"
      by (intro comprehension_if_error_at)
    with k show ?thesis by (simp add: image_paths_of_def)
  next
    case (Some t)
    with bad kvs have t: "t = JStr ''Resource''"
      by (auto simp: missing_key_def split: if_splits)
    with Some kvs have tr: "tracked bad" and rb: "is_resource bad = Inr True"
      by (simp_all add: tracked_def is_resource_def getitem_def)
    have all_res: "x \<in> set (pre @ bad # post) \<Longrightarrow> is_resource x = Inr (tracked x)" for x
      using pre post rb tr is_resource_top by (auto simp: list_all_iff)
    have res: "comprehension_if is_resource (pre @ bad # post) =
        Inr (filter tracked pre @ bad # filter tracked post)"
      using comprehension_if_total [of "pre @ bad # post" is_resource tracked] all_res tr
      by simp
    have pre_files: "x \<in> set (filter tracked pre) \<Longrightarrow> \<exists>y. original_file x = Inr y" for x
      using pre original_file_top by (auto simp: list_all_iff)
    show ?thesis
    proof (cases "\<exists>es. file_list bad = Some (JArr es)")
      case False
      with bad kvs Some t have "original_file bad = Inl (KeyError k) \<and>
          (k = ''properties'' \<or> k = ''resource.originalFile'')"
        by (auto simp: missing_key_def original_file_def getitem_def file_list_def
            split: option.splits json.splits)
      then have "comprehension original_file (filter tracked pre @ bad # filter tracked post)
          = Inl (KeyError k)" and "k = ''properties'' \<or> k = ''resource.originalFile''"
        using pre_files by (auto intro: comprehension_error_at)
      then show ?thesis by (auto simp: image_paths_of_def res)
    next
      case True
      then obtain es where es: "file_list bad = Some (JArr es)" ..
      with bad kvs Some t have mk: "entries_missing_key es = Some k"
        by (auto simp: missing_key_def file_list_def split: option.splits json.splits)
      note E = entries_missing_key_error [OF mk]
      with ent have cpre: "list_all complete pre" by blast
      from es tr Some kvs have top: "record_top bad"
        by (simp add: record_top_def)
      have tops: "list_all record_top (pre @ bad # post)"
        using pre post top by simp
      have files: "comprehension original_file (filter tracked pre @ bad # filter tracked post)
          = Inr (map (\<lambda>r. JArr (entries_of r)) (filter tracked pre @ bad # filter tracked post))"
        using tops tr original_file_top
        by (intro comprehension_total) (auto simp: list_all_iff)
      have pages_pre: "x \<in> set (map (\<lambda>r. JArr (entries_of r)) (filter tracked pre)) \<Longrightarrow>
          \<exists>p. page_of_file render x = Inr p" for x
      proof -
        assume "x \<in> set (map (\<lambda>r. JArr (entries_of r)) (filter tracked pre))"
        then obtain r where r: "r \<in> set pre" "tracked r" "x = JArr (entries_of r)" by auto
        with cpre have c: "record_shape r" "tiff_entries r \<noteq> []"
          by (auto simp: list_all_iff complete_def)
        then obtain e rest where "filter tiff_entry (entries_of r) = e # rest"
          by (cases "tiff_entries r") (auto simp: tiff_entries_def)
        from page_of_file_tiff [OF conjunct2 [OF original_file_shape [OF c(1) r(2)]] this, of render]
        show ?thesis using r(3) by blast
      qed
      from es have "entries_of bad = es" by (simp add: entries_of_def)
      with E have pb: "page_of_file render (JArr (entries_of bad)) = Inl (KeyError k)"
        by (simp add: page_of_file_def)
      have "comprehension (page_of_file render)
          (map (\<lambda>r. JArr (entries_of r)) (filter tracked pre)
            @ JArr (entries_of bad) # map (\<lambda>r. JArr (entries_of r)) (filter tracked post))
          = Inl (KeyError k)"
        using pages_pre pb by (intro comprehension_error_at)
      then have "image_paths_of render (JArr (pre @ bad # post)) = Inl (KeyError k)"
        by (simp add: image_paths_of_def res files paths_loop_comprehension)
      with E show ?thesis by auto
    qed
  qed
qed

text \<open>
  C10, as the code has it. Let the response be a list of records in which one dict
  record lacks a key: the entity kind; or, being of the tracked kind, the properties or the
  original-file list; or \<^verbatim>\<open>value\<close> or \<^verbatim>\<open>mimeType\<close> in a file entry. Let the two
  comprehensions succeed on all other records and, in the last case, let every record
  before it be of the known shape with an \<^verbatim>\<open>image/tiff\<close> entry if tracked. Then extraction
  raises KeyError for that key, nothing is logged and the run ends at this article with
  only the metadata request made.
\<close>

theorem missing_key_ends_run:
  assumes fetch: "requests_get E (generate_url internal_id)
                    (Some (config_username E, config_password E)) = Inr text"
    and parse: "json_loads E text = Inr (JArr (pre @ bad # post))"
    and pre: "list_all record_top pre" and post: "list_all record_top post"
    and bad: "missing_key bad = Some k"
    and ent: "k = ''value'' \<or> k = ''mimeType'' \<longrightarrow> list_all complete pre"
  shows "get_image_paths (json_loads E) (py_str E) text = Inl (KeyError k) \<and>
         k \<in> {''entityType'', ''properties'', ''resource.originalFile'', ''value'', ''mimeType''} \<and>
         main_loop E error_log (internal_id # ids) w =
           (Inl (KeyError k),
            w\<lparr>events := events w @
               [Get (generate_url internal_id) (Some (config_username E, config_password E))]\<rparr>)"
proof -
  note X = missing_key_extraction [OF pre post bad ent, of "py_str E"]
  from X have a: "get_image_paths (json_loads E) (py_str E) text = Inl (KeyError k)"
    by (simp add: get_image_paths_def parse)
  from a have b: "main_loop E error_log (internal_id # ids) w =
           (Inl (KeyError k),
            w\<lparr>events := events w @
               [Get (generate_url internal_id) (Some (config_username E, config_password E))]\<rparr>)"
    by (simp add: download_files_of_article_apply fetch fetched_def)
  from X have c:
    "k \<in> {''entityType'', ''properties'', ''resource.originalFile'', ''value'', ''mimeType''}"
    by (rule conjunct2)
  from a c b show ?thesis by (intro conjI)
qed

text \<open>
  C10 as stated fails: the second record has a file entry without \<^verbatim>\<open>value\<close>, but the
  first tracked record has no \<^verbatim>\<open>image/tiff\<close> entry and its IndexError comes first, so the
  identifier is logged as malformed and the run goes on to its normal end.
\<close>

theorem missing_key_after_index_error:
  "missing_key (example_record ''Resource'' [JObj []]) = Some ''value'' \<and>
   get_image_paths (json_loads keyless_env) (py_str keyless_env) ''[metadata]'' = Inl IndexError \<and>
   main_loop keyless_env ''20180101-120000.log'' [''a2''] home_world
     = (Inr (), logged_world ''a2'')"
  by (simp add: missing_key_def entry_missing_key_def entry_field_def extract_defs
      keyless_env_def keyless_records_def env_defs download_files_of_article_apply fetched_def
      log_weird_article_def os_defs home_world_def logged_world_def generate_url_def)

text \<open>
  C10 as amended, on a record with an entry without \<^verbatim>\<open>value\<close> after a complete record.
\<close>

theorem missing_key_ends_run_witness:
  "requests_get keyless_page_env (generate_url ''a2'')
      (Some (config_username keyless_page_env, config_password keyless_page_env))
     = Inr ''[metadata]'' \<and>
   json_loads keyless_page_env ''[metadata]'' =
     Inr (JArr ([example_record ''Resource'' [example_entry ''image/tiff'' ''p1.tif'']]
                @ example_record ''Resource'' [JObj []] # [])) \<and>
   list_all record_top [example_record ''Resource'' [example_entry ''image/tiff'' ''p1.tif'']] \<and>
   list_all record_top [] \<and>
   missing_key (example_record ''Resource'' [JObj []]) = Some ''value'' \<and>
   list_all complete [example_record ''Resource'' [example_entry ''image/tiff'' ''p1.tif'']] \<and>
   get_image_paths (json_loads keyless_page_env) (py_str keyless_page_env) ''[metadata]''
     = Inl (KeyError ''value'') \<and>
   main_loop keyless_page_env ''20180101-120000.log'' [''a2'', ''a3''] home_world =
     (Inl (KeyError ''value''),
      home_world\<lparr>events := events home_world @
         [Get (generate_url ''a2'')
            (Some (config_username keyless_page_env, config_password keyless_page_env))]\<rparr>)"
proof -
  let ?pre = "[example_record ''Resource'' [example_entry ''image/tiff'' ''p1.tif'']]"
  let ?bad = "example_record ''Resource'' [JObj []]"
  have h1: "requests_get keyless_page_env (generate_url ''a2'')
      (Some (config_username keyless_page_env, config_password keyless_page_env))
     = Inr ''[metadata]''"
    by (simp add: keyless_page_env_def env_defs)
  have h2: "json_loads keyless_page_env ''[metadata]'' = Inr (JArr (?pre @ ?bad # []))"
    by (simp add: keyless_page_env_def env_defs loads_as_def keyless_after_page_def)
  have h3: "list_all record_top ?pre"
    by (simp add: record_top_def shape_defs)
  have h4: "list_all record_top []"
    by simp
  have h5: "missing_key ?bad = Some ''value''"
    by (simp add: missing_key_def entry_missing_key_def entry_field_def example_record_def)
  have h6: "list_all complete ?pre"
    by (simp add: complete_def shape_defs)
  then have h6': "''value'' = ''value'' \<or> ''value'' = ''mimeType'' \<longrightarrow> list_all complete ?pre"
    by simp
  from missing_key_ends_run [OF h1 h2 h3 h4 h5 h6', of "''20180101-120000.log''" "[''a3'']" home_world]
  show ?thesis
    using h1 h2 h3 h4 h5 h6 by simp
qed

subsection \<open>The scenario of two articles\<close>

text \<open>The whole program on a list of two identifiers: the first article has two pages,
  the second has a page without a TIFF entry. The first is downloaded and assembled, the
  second is logged, and the run ends normally.\<close>

lemma scenario_two_articles:
  "program scenario_env [''--list'', ''ids.txt''] scenario_start = (Inr (), scenario_end)"
  by (simp add: program_def can_djvu_def main_def start_error_log_def file_to_list_def
      readlines_def strip_def is_space_def log_weird_article_def
      download_files_of_article_apply fetched_def download_images_def
      scenario_env_def scenario_loads_def scenario_server_def scenario_start_def scenario_end_def
      malformed_records_def generate_url_def extract_defs py_iter_def djvu_defs os_defs
      example_env_def Let_def upt_rec)

end
